theory Spec2Isabelle
  imports Complex_Main
begin

section \<open>The PlayRec call flow of switchy/apps/players.py\<close>

text \<open>
  The class \<^verbatim>\<open>PlayRec\<close> reacts to the events of the two sessions (legs) of a call.
  Its own attributes are the record \<open>PlayRec\<close>; the variables it keeps on sessions
  (\<^verbatim>\<open>sess.vars\<close>) and on calls (\<^verbatim>\<open>call.vars\<close>) are records of optional fields, an
  absent key being \<open>None\<close>. The commands it sends to a session and the invocations of
  the completion callback are appended to a log. Python numbers are exact: integers
  are \<open>int\<close>, durations are \<open>rat\<close>. Calls to the logger are left out: they change
  neither the state nor the commands.
\<close>

subsection \<open>Data\<close>

type_synonym uuid = string

datatype direction = Inbound | Outbound

datatype error = AssertionError | KeyError | ZeroDivisionError | NotBridged

text \<open>The namedtuple \<^verbatim>\<open>RecInfo(host, caller, callee)\<close>.\<close>

datatype RecInfo = RecInfo string string string

text \<open>
  What \<^verbatim>\<open>prepost\<close> observes of the object given as \<^verbatim>\<open>callback\<close>: whether it is
  \<^verbatim>\<open>None\<close>, a function (with the names of its positional parameters, the first
  component of \<^verbatim>\<open>inspect.getargspec\<close>), or any other object, of which only the truth
  value is observed.
\<close>

datatype pyobj = PyNone | PyFunction "string list" | PyOther bool

fun truthy :: "pyobj \<Rightarrow> bool" where
  "truthy PyNone = False"
| "truthy (PyFunction _) = True"
| "truthy (PyOther b) = b"

fun isfunction :: "pyobj \<Rightarrow> bool" where
  "isfunction (PyFunction _) = True"
| "isfunction _ = False"

fun getargspec_args :: "pyobj \<Rightarrow> string list" where
  "getargspec_args (PyFunction args) = args"
| "getargspec_args _ = []"

record sess_vars =
  clip :: "string option"
  recorded :: "bool option"

record call_vars =
  noautohangup :: "bool option"
  record_var :: "bool option"
  iterations_var :: "rat option"
  tail_var :: "rat option"
  playback_count :: "int option"

record PlayRec =
  filename :: string
  category :: string
  framerate :: nat
  clip_length :: rat
  callback :: pyobj
  rec_rate :: int
  stereo :: bool
  silence :: string
  iterations :: rat
  tail :: rat
  call_count :: int
  soundsdir :: string
  recsdir :: string
  audiofile :: string
  call2recs :: "uuid \<rightharpoonup> (string \<rightharpoonup> string)"
  host :: string

text \<open>The commands sent to a session, each with the uuid of the session it is sent to,
  and the invocation of the callback, with the uuid of the session whose RECORD_STOP
  reaction made it.\<close>

datatype command =
    Answer uuid
  | Playback uuid string
  | Breakapp uuid
  | StartRecord uuid string bool
  | StopRecord uuid rat
  | SchedHangup uuid rat
  | Callback uuid RecInfo

text \<open>
  The world: the app, the sessions and calls the host knows, and the command log.
  Direction, owning call and peer of a session are fixed by the host. A session or call
  the app has not touched yet has no variables.
\<close>

record world =
  app :: PlayRec
  direction_of :: "uuid \<Rightarrow> direction"
  call_of :: "uuid \<Rightarrow> uuid"
  peer_of :: "uuid \<Rightarrow> uuid option"
  svars :: "uuid \<Rightarrow> sess_vars"
  cvars :: "uuid \<Rightarrow> call_vars"
  cmds :: "command list"

text \<open>
  Modelled from the spec: the session class is not part of the source file. The spec's
  leg handle has a direction fixed at creation, read by \<^verbatim>\<open>isInbound()\<close> and
  \<^verbatim>\<open>isOutbound()\<close>.
\<close>

definition is_inbound :: "world \<Rightarrow> uuid \<Rightarrow> bool" where
  "is_inbound w sid = (direction_of w sid = Inbound)"

definition is_outbound :: "world \<Rightarrow> uuid \<Rightarrow> bool" where
  "is_outbound w sid = (direction_of w sid = Outbound)"

text \<open>
  Modelled from the spec: \<^verbatim>\<open>Call.get_peer\<close> is not part of the source file. The spec's
  \<^verbatim>\<open>peerOf(leg)\<close> gives the peer leg and fails with NotBridged when there is none.
\<close>

definition get_peer :: "world \<Rightarrow> uuid \<Rightarrow> error + uuid" where
  "get_peer w sid = (case peer_of w sid of None \<Rightarrow> Inl NotBridged | Some p \<Rightarrow> Inr p)"

subsection \<open>Primitive effects\<close>

definition emit :: "command \<Rightarrow> world \<Rightarrow> world" where
  "emit c w = w\<lparr>cmds := cmds w @ [c]\<rparr>"

definition set_clip :: "uuid \<Rightarrow> string \<Rightarrow> world \<Rightarrow> world" where
  "set_clip sid v w = w\<lparr>svars := (svars w)(sid := (svars w sid)\<lparr>clip := Some v\<rparr>)\<rparr>"

definition set_recorded :: "uuid \<Rightarrow> bool \<Rightarrow> world \<Rightarrow> world" where
  "set_recorded sid b w = w\<lparr>svars := (svars w)(sid := (svars w sid)\<lparr>recorded := Some b\<rparr>)\<rparr>"

definition upd_call :: "uuid \<Rightarrow> (call_vars \<Rightarrow> call_vars) \<Rightarrow> world \<Rightarrow> world" where
  "upd_call cid f w = w\<lparr>cvars := (cvars w)(cid := f (cvars w cid))\<rparr>"

text \<open>\<^verbatim>\<open>self.call2recs.setdefault(cid, {})[key] = path\<close>\<close>

definition register_rec :: "uuid \<Rightarrow> string \<Rightarrow> string \<Rightarrow> world \<Rightarrow> world" where
  "register_rec cid key path w =
     w\<lparr>app := (app w)\<lparr>call2recs :=
        (call2recs (app w))(cid \<mapsto>
          (case call2recs (app w) cid of None \<Rightarrow> Map.empty | Some d \<Rightarrow> d)(key \<mapsto> path))\<rparr>\<rparr>"

text \<open>Sequencing: an exception ends the reaction with the state reached so far.\<close>

definition seq :: "error option \<times> world \<Rightarrow> (world \<Rightarrow> error option \<times> world) \<Rightarrow> error option \<times> world" where
  "seq r f = (case r of (None, w) \<Rightarrow> f w | (Some e, w) \<Rightarrow> (Some e, w))"

subsection \<open>Construction and configuration\<close>

text \<open>Decimal rendering of the sample rate by \<^verbatim>\<open>str.format\<close>.\<close>

fun str_nat :: "nat \<Rightarrow> string" where
  "str_nat n = (if n < 10 then [''0123456789'' ! n]
                else str_nat (n div 10) @ [''0123456789'' ! (n mod 10)])"

declare str_nat.simps [simp del]

record client =
  client_host :: string
  sound_prefix :: string
  recordings_dir :: string

definition prepost ::
  "client \<Rightarrow> string \<Rightarrow> string \<Rightarrow> rat \<Rightarrow> nat \<Rightarrow> rat \<Rightarrow> pyobj \<Rightarrow> int \<Rightarrow> bool \<Rightarrow> error + PlayRec" where
  "prepost cl fname cat clen sample_rate iters cb rate rec_stereo =
     (if truthy cb \<and> \<not> isfunction cb then Inl AssertionError
      else if truthy cb \<and> length (getargspec_args cb) \<noteq> 1 then Inl AssertionError
      else Inr \<lparr>filename = fname, category = cat, framerate = sample_rate,
                clip_length = clen, callback = cb, rec_rate = rate, stereo = rec_stereo,
                silence = ''silence_stream://0'', iterations = iters, tail = 1,
                call_count = 0,
                soundsdir = sound_prefix cl, recsdir = recordings_dir cl,
                audiofile = sound_prefix cl @ ''/'' @ cat @ ''/'' @ str_nat sample_rate
                            @ ''/'' @ fname,
                call2recs = Map.empty, host = client_host cl\<rparr>)"

text \<open>Python's \<^verbatim>\<open>divmod\<close> on numbers: floor division and the remainder that goes with it.\<close>

definition py_divmod :: "rat \<Rightarrow> rat \<Rightarrow> error + (rat \<times> rat)" where
  "py_divmod a b =
     (if b = 0 then Inl ZeroDivisionError
      else Inr (of_int \<lfloor>a / b\<rfloor>, a - b * of_int \<lfloor>a / b\<rfloor>))"

definition setduration :: "PlayRec \<Rightarrow> rat \<Rightarrow> error + PlayRec" where
  "setduration a v =
     (case py_divmod v (clip_length a) of
        Inl e \<Rightarrow> Inl e
      | Inr (q, r) \<Rightarrow>
          (let a1 = a\<lparr>iterations := q, tail := r\<rparr>
           in if tail a1 < 1 then Inr (a1\<lparr>tail := 1\<rparr>) else Inr a1))"

definition setrate :: "PlayRec \<Rightarrow> rat \<Rightarrow> PlayRec" where
  "setrate a v = a"

subsection \<open>The reactions\<close>

definition on_create :: "world \<Rightarrow> uuid \<Rightarrow> error option \<times> world" where
  "on_create w sid =
     (if is_outbound w sid
      then (None, upd_call (call_of w sid) (\<lambda>v. v\<lparr>noautohangup := Some True\<rparr>) w)
      else (None, w))"

definition on_park :: "world \<Rightarrow> uuid \<Rightarrow> error option \<times> world" where
  "on_park w sid = (if is_inbound w sid then (None, emit (Answer sid) w) else (None, w))"

definition trigger_playback :: "world \<Rightarrow> uuid \<Rightarrow> error option \<times> world" where
  "trigger_playback w sid =
     (case get_peer w sid of
        Inl e \<Rightarrow> (Some e, w)
      | Inr peer \<Rightarrow>
          (None, upd_call (call_of w sid) (\<lambda>v. v\<lparr>playback_count := Some 0\<rparr>)
                   (set_clip peer ''silence'' (emit (Playback peer (silence (app w))) w))))"

definition on_answer :: "world \<Rightarrow> uuid \<Rightarrow> error option \<times> world" where
  "on_answer w sid =
     seq (if is_inbound w sid
          then (let w1 = w\<lparr>app := (app w)\<lparr>call_count := call_count (app w) + 1\<rparr>\<rparr>;
                    count = call_count (app w1); rate = rec_rate (app w1)
                in if rate = 0 then (Some ZeroDivisionError, w1)
                   else (let w2 =
                              (if count mod rate = 0
                               then (let fn = recsdir (app w1) @ ''/callee_'' @ sid @ ''.wav'';
                                         w3 = emit (StartRecord sid fn (stereo (app w1))) w1;
                                         w4 = register_rec (call_of w sid) ''callee'' fn w3;
                                         w5 = upd_call (call_of w sid) (\<lambda>v. v\<lparr>record_var := Some True\<rparr>) w4
                                     in w5\<lparr>app := (app w5)\<lparr>call_count := 0\<rparr>\<rparr>)
                               else w1)
                         in (None, upd_call (call_of w sid)
                                     (\<lambda>v. v\<lparr>iterations_var := Some (iterations (app w2)),
                                            tail_var := Some (tail (app w2))\<rparr>) w2)))
          else (None, w))
       (\<lambda>w'. if is_outbound w' sid
              then (if record_var (cvars w' (call_of w' sid)) = Some True
                    then (let fn = recsdir (app w') @ ''/caller_'' @ sid @ ''.wav'';
                              w1 = emit (StartRecord sid fn (stereo (app w'))) w'
                          in (None, register_rec (call_of w' sid) ''caller'' fn w1))
                    else trigger_playback w' sid)
              else (None, w'))"

definition on_play :: "world \<Rightarrow> uuid \<Rightarrow> string \<Rightarrow> error option \<times> world" where
  "on_play w sid fp =
     (if fp = audiofile (app w) then (None, set_clip sid ''signal'' w)
      else if fp = silence (app w)
      then (let w1 = set_clip sid ''silence'' w
            in case get_peer w1 sid of
                 Inl e \<Rightarrow> (Some e, w1)
               | Inr peer \<Rightarrow>
                   (None, emit (Playback peer (audiofile (app w1))) (emit (Breakapp peer) w1)))
      else (None, w))"

definition on_stop :: "world \<Rightarrow> uuid \<Rightarrow> error option \<times> world" where
  "on_stop w sid =
     (case clip (svars w sid) of
        None \<Rightarrow> (Some KeyError, w)
      | Some c \<Rightarrow>
          if c = ''signal''
          then (case playback_count (cvars w (call_of w sid)) of
                  None \<Rightarrow> (Some KeyError, w)
                | Some n \<Rightarrow>
                    (let w1 = upd_call (call_of w sid) (\<lambda>v. v\<lparr>playback_count := Some (n + 1)\<rparr>) w;
                         vars = cvars w1 (call_of w sid)
                     in case iterations_var vars of
                          None \<Rightarrow> (Some KeyError, w1)
                        | Some iters \<Rightarrow>
                            if of_int (n + 1) < iters
                            then (None, emit (Playback sid (silence (app w1))) w1)
                            else if record_var vars = Some True
                            then (case tail_var vars of
                                    None \<Rightarrow> (Some KeyError, w1)
                                  | Some t \<Rightarrow>
                                      (let w2 = emit (StopRecord sid t) w1
                                       in case get_peer w2 sid of
                                            Inl e \<Rightarrow> (Some e, w2)
                                          | Inr peer \<Rightarrow>
                                              (None, emit (StopRecord peer t)
                                                       (emit (Breakapp peer) w2))))
                            else (None, emit (SchedHangup sid (1 / 2)) w1)))
          else (None, w))"

definition on_rec :: "world \<Rightarrow> uuid \<Rightarrow> error option \<times> world" where
  "on_rec w sid =
     (let w1 = set_recorded sid False w
      in if is_outbound w1 sid then trigger_playback w1 sid else (None, w1))"

definition on_recstop :: "world \<Rightarrow> uuid \<Rightarrow> error option \<times> world" where
  "on_recstop w sid =
     (let w1 = set_recorded sid True w
      in case get_peer w1 sid of
           Inl e \<Rightarrow> (Some e, w1)
         | Inr peer \<Rightarrow>
             if (case recorded (svars w1 peer) of None \<Rightarrow> True | Some b \<Rightarrow> b)
             then (let w2 = emit (SchedHangup sid (1 / 2)) w1
                   in case call2recs (app w2) (call_of w2 sid) of
                        None \<Rightarrow> (Some KeyError, w2)
                      | Some recs \<Rightarrow>
                          if truthy (callback (app w2))
                          then (case recs ''caller'' of
                                  None \<Rightarrow> (Some KeyError, w2)
                                | Some cr \<Rightarrow>
                                    (case recs ''callee'' of
                                       None \<Rightarrow> (Some KeyError, w2)
                                     | Some ce \<Rightarrow>
                                         (None, emit (Callback sid (RecInfo (host (app w2)) cr ce)) w2)))
                          else (None, w2))
             else (None, w1))"

subsection \<open>Event delivery\<close>

text \<open>The events of a session, and the two notifications of an originator that changes
  its \<^verbatim>\<open>duration\<close> or \<^verbatim>\<open>rate\<close> attribute.\<close>

datatype event =
    ChannelCreate uuid
  | ChannelPark uuid
  | ChannelAnswer uuid
  | PlaybackStart uuid string
  | PlaybackStop uuid
  | RecordStart uuid
  | RecordStop uuid
  | SetDuration rat
  | SetRate rat

fun react :: "world \<Rightarrow> event \<Rightarrow> error option \<times> world" where
  "react w (ChannelCreate sid) = on_create w sid"
| "react w (ChannelPark sid) = on_park w sid"
| "react w (ChannelAnswer sid) = on_answer w sid"
| "react w (PlaybackStart sid fp) = on_play w sid fp"
| "react w (PlaybackStop sid) = on_stop w sid"
| "react w (RecordStart sid) = on_rec w sid"
| "react w (RecordStop sid) = on_recstop w sid"
| "react w (SetDuration v) =
     (case setduration (app w) v of Inl e \<Rightarrow> (Some e, w) | Inr a \<Rightarrow> (None, w\<lparr>app := a\<rparr>))"
| "react w (SetRate v) = (None, w\<lparr>app := setrate (app w) v\<rparr>)"

text \<open>A sequence of events, delivered one after the other; the state a reaction leaves
  is kept whether it raised or not.\<close>

fun run :: "world \<Rightarrow> event list \<Rightarrow> world" where
  "run w [] = w"
| "run w (e # es) = run (snd (react w e)) es"

definition init_world ::
  "PlayRec \<Rightarrow> (uuid \<Rightarrow> direction) \<Rightarrow> (uuid \<Rightarrow> uuid) \<Rightarrow> (uuid \<Rightarrow> uuid option) \<Rightarrow> world" where
  "init_world a dir callf peerf =
     \<lparr>app = a, direction_of = dir, call_of = callf, peer_of = peerf,
      svars = (\<lambda>_. \<lparr>clip = None, recorded = None\<rparr>),
      cvars = (\<lambda>_. \<lparr>noautohangup = None, record_var = None, iterations_var = None,
                    tail_var = None, playback_count = None\<rparr>),
      cmds = []\<rparr>"

subsection \<open>Notions used in the statements\<close>



subsection \<open>A concrete configuration\<close>

text \<open>The app as \<^verbatim>\<open>prepost\<close> builds it with the default clip, a recording period and a
  callback; one bridged call \<open>c1\<close> with the legs \<open>in1\<close> and \<open>out1\<close>; every other
  session is an inbound leg of a call of its own.\<close>

definition demo_client :: client where
  "demo_client = \<lparr>client_host = ''fs1'', sound_prefix = ''/sounds'', recordings_dir = ''/recs''\<rparr>"

definition demo_app :: "int \<Rightarrow> pyobj \<Rightarrow> PlayRec" where
  "demo_app rate cb =
     \<lparr>filename = ''ivr-founder_of_freesource.wav'', category = ''ivr'', framerate = 8000,
      clip_length = 17 / 4, callback = cb, rec_rate = rate, stereo = False,
      silence = ''silence_stream://0'', iterations = 1, tail = 1, call_count = 0,
      soundsdir = ''/sounds'', recsdir = ''/recs'',
      audiofile = ''/sounds/ivr/8000/ivr-founder_of_freesource.wav'',
      call2recs = Map.empty, host = ''fs1''\<rparr>"

definition demo_dir :: "uuid \<Rightarrow> direction" where
  "demo_dir s = (if s = ''out1'' then Outbound else Inbound)"

definition demo_call :: "uuid \<Rightarrow> uuid" where
  "demo_call s = (if s = ''out1'' \<or> s = ''in1'' then ''c1'' else s)"

definition demo_peer :: "uuid \<Rightarrow> uuid option" where
  "demo_peer s = (if s = ''out1'' then Some ''in1'' else if s = ''in1'' then Some ''out1'' else None)"

definition demo_world :: "int \<Rightarrow> pyobj \<Rightarrow> world" where
  "demo_world rate cb = init_world (demo_app rate cb) demo_dir demo_call demo_peer"

subsection \<open>Observing the rate gate\<close>

text \<open>The commands a reaction added to the log.\<close>

definition new_cmds :: "world \<Rightarrow> world \<Rightarrow> command list" where
  "new_cmds w w' = drop (length (cmds w)) (cmds w')"

text \<open>An answered inbound leg is marked for recording when its CHANNEL_ANSWER reaction
  started the recording of the leg and left the record flag of its call set.\<close>

definition marked :: "world \<Rightarrow> uuid \<Rightarrow> bool" where
  "marked w sid =
     (let w' = snd (on_answer w sid)
      in new_cmds w w' = [StartRecord sid (recsdir (app w) @ ''/callee_'' @ sid @ ''.wav'') (stereo (app w))]
         \<and> record_var (cvars w' (call_of w sid)) = Some True)"

text \<open>The marks of a sequence of answered legs, and the counter after each of them.\<close>

fun marks :: "world \<Rightarrow> uuid list \<Rightarrow> bool list" where
  "marks w [] = []"
| "marks w (s # ss) = marked w s # marks (snd (on_answer w s)) ss"

fun counts :: "world \<Rightarrow> uuid list \<Rightarrow> int list" where
  "counts w [] = []"
| "counts w (s # ss) = call_count (app (snd (on_answer w s))) # counts (snd (on_answer w s)) ss"

subsection \<open>What a reaction leaves alone\<close>

text \<open>The configuration of the app and the direction, call and peer of every session.\<close>

definition same_static :: "world \<Rightarrow> world \<Rightarrow> bool" where
  "same_static w w' \<longleftrightarrow>
     direction_of w' = direction_of w \<and> call_of w' = call_of w \<and> peer_of w' = peer_of w
     \<and> audiofile (app w') = audiofile (app w) \<and> silence (app w') = silence (app w)
     \<and> host (app w') = host (app w) \<and> callback (app w') = callback (app w)
     \<and> recsdir (app w') = recsdir (app w) \<and> stereo (app w') = stereo (app w)
     \<and> rec_rate (app w') = rec_rate (app w)"

text \<open>The invocations of the callback in a command log, each with the session whose
  reaction made it.\<close>

fun callbacks :: "command list \<Rightarrow> (uuid \<times> RecInfo) list" where
  "callbacks [] = []"
| "callbacks (Callback sid info # cs) = (sid, info) # callbacks cs"
| "callbacks (_ # cs) = callbacks cs"

text \<open>The recording path registered for a call under a key, if any:
  \<^verbatim>\<open>call2recs.get(cid, {}).get(key)\<close>.\<close>

definition rec_path :: "world \<Rightarrow> uuid \<Rightarrow> string \<Rightarrow> string option" where
  "rec_path w cid key = (case call2recs (app w) cid of None \<Rightarrow> None | Some d \<Rightarrow> d key)"

text \<open>A command that asks a given session to start recording.\<close>

fun is_start_record_for :: "uuid \<Rightarrow> command \<Rightarrow> bool" where
  "is_start_record_for s (StartRecord t _ _) = (t = s)"
| "is_start_record_for s _ = False"

text \<open>Two facts that hold in every state the app reaches: a call with registered
  recording paths has its record flag set, and every invocation of the callback was made
  for a session whose call has its record flag set.\<close>

definition recs_imply_flag :: "world \<Rightarrow> bool" where
  "recs_imply_flag w \<longleftrightarrow>
     (\<forall>c. call2recs (app w) c \<noteq> None \<longrightarrow> record_var (cvars w c) = Some True)"

definition callbacks_flagged :: "world \<Rightarrow> bool" where
  "callbacks_flagged w \<longleftrightarrow>
     (\<forall>sid info. (sid, info) \<in> set (callbacks (cmds w))
         \<longrightarrow> record_var (cvars w (call_of w sid)) = Some True)"

text \<open>A reaction that touches neither the registry, nor the record flags, nor the
  callback.\<close>

definition quiet :: "world \<Rightarrow> world \<Rightarrow> bool" where
  "quiet w w' \<longleftrightarrow>
     call2recs (app w') = call2recs (app w) \<and> callbacks (cmds w') = callbacks (cmds w)
     \<and> (\<forall>c. record_var (cvars w' c) = record_var (cvars w c)) \<and> call_of w' = call_of w"

text \<open>The events of the call \<open>c1\<close> up to the start of the reference clip, when the call
  is not recorded: both legs are answered, the inbound leg first; the silence stream
  starts on the inbound leg and the reference clip on the outbound leg.\<close>

definition signal_flow :: "event list" where
  "signal_flow =
     [ChannelCreate ''out1'', ChannelPark ''in1'', ChannelAnswer ''in1'', ChannelAnswer ''out1'',
      PlaybackStart ''in1'' ''silence_stream://0'',
      PlaybackStart ''out1'' ''/sounds/ivr/8000/ivr-founder_of_freesource.wav'']"

text \<open>The events of the call \<open>c1\<close> up to the point where both legs are recording.\<close>

definition recording_flow :: "event list" where
  "recording_flow =
     [ChannelCreate ''out1'', ChannelPark ''in1'', ChannelAnswer ''in1'', ChannelAnswer ''out1'',
      RecordStart ''in1'', RecordStart ''out1'']"

section \<open>Properties\<close>

subsection \<open>Setting the duration\<close>






subsection \<open>Construction\<close>

lemma str_nat_8000: "str_nat 8000 = ''8000''"
  by (simp add: str_nat.simps)

lemma prepost_demo:
  "\<not> truthy cb \<or> (isfunction cb \<and> length (getargspec_args cb) = 1) \<Longrightarrow>
   prepost demo_client ''ivr-founder_of_freesource.wav'' ''ivr'' (17 / 4) 8000 1 cb rate False
     = Inr (demo_app rate cb)"
  by (auto simp: prepost_def demo_app_def demo_client_def str_nat_8000)




subsection \<open>The rate gate\<close>

lemmas world_defs = emit_def set_clip_def set_recorded_def upd_call_def register_rec_def
  is_inbound_def is_outbound_def get_peer_def seq_def new_cmds_def

lemma on_answer_inbound_static:
  assumes "is_inbound w sid"
  shows "direction_of (snd (on_answer w sid)) = direction_of w"
    and "call_of (snd (on_answer w sid)) = call_of w"
    and "peer_of (snd (on_answer w sid)) = peer_of w"
    and "rec_rate (app (snd (on_answer w sid))) = rec_rate (app w)"
    and "recsdir (app (snd (on_answer w sid))) = recsdir (app w)"
    and "stereo (app (snd (on_answer w sid))) = stereo (app w)"
  using assms by (simp_all add: on_answer_def world_defs Let_def)

lemma on_answer_inbound_count:
  assumes "is_inbound w sid" "rec_rate (app w) \<noteq> 0"
  shows "call_count (app (snd (on_answer w sid)))
           = (if (call_count (app w) + 1) mod rec_rate (app w) = 0 then 0
              else call_count (app w) + 1)"
  using assms by (simp add: on_answer_def world_defs Let_def)

lemma on_answer_inbound_marked:
  assumes "is_inbound w sid" "rec_rate (app w) \<noteq> 0"
  shows "marked w sid \<longleftrightarrow> (call_count (app w) + 1) mod rec_rate (app w) = 0"
  using assms by (simp add: marked_def on_answer_def world_defs Let_def)

lemma gate_step_count:
  fixes c p :: int
  assumes "0 < p" "0 \<le> c" "c < p"
  shows "(if (c + 1) mod p = 0 then 0 else c + 1) = (c + 1) mod p"
proof (cases "c + 1 = p")
  case True
  then show ?thesis by simp
next
  case False
  with assms have "c + 1 < p" by simp
  with assms show ?thesis by simp
qed

lemma gate_general:
  assumes "0 < rec_rate (app w)" "0 \<le> call_count (app w)"
    "call_count (app w) < rec_rate (app w)" "\<forall>s\<in>set ss. is_inbound w s"
  shows "length (marks w ss) = length ss \<and> length (counts w ss) = length ss
         \<and> (\<forall>i<length ss.
               (marks w ss ! i \<longleftrightarrow> (call_count (app w) + int i + 1) mod rec_rate (app w) = 0)
               \<and> counts w ss ! i = (call_count (app w) + int i + 1) mod rec_rate (app w))"
  using assms
proof (induction ss arbitrary: w)
  case Nil
  then show ?case by simp
next
  case (Cons s ss)
  let ?w = "snd (on_answer w s)"
  let ?p = "rec_rate (app w)"
  let ?c = "call_count (app w)"
  from Cons.prems have inb: "is_inbound w s" and p0: "?p \<noteq> 0" by simp_all
  have rate: "rec_rate (app ?w) = ?p"
    using inb by (rule on_answer_inbound_static)
  have cnt: "call_count (app ?w) = (?c + 1) mod ?p"
    using on_answer_inbound_count [OF inb p0] gate_step_count [of ?p ?c] Cons.prems by simp
  have dir: "\<forall>t\<in>set ss. is_inbound ?w t"
    using Cons.prems on_answer_inbound_static(1) [OF inb] by (simp add: is_inbound_def)
  have cnt_bounds: "0 \<le> call_count (app ?w)" "call_count (app ?w) < rec_rate (app ?w)"
    using Cons.prems by (simp_all add: cnt rate)
  have IH: "length (marks ?w ss) = length ss \<and> length (counts ?w ss) = length ss
         \<and> (\<forall>i<length ss.
               (marks ?w ss ! i \<longleftrightarrow> ((?c + 1) mod ?p + int i + 1) mod ?p = 0)
               \<and> counts ?w ss ! i = ((?c + 1) mod ?p + int i + 1) mod ?p)"
    using Cons.IH [of ?w] Cons.prems(1) cnt_bounds dir by (simp add: rate cnt)
  have shift: "((?c + 1) mod ?p + int i + 1) mod ?p = (?c + int (Suc i) + 1) mod ?p" for i
  proof -
    have "((?c + 1) mod ?p + (int i + 1)) mod ?p = ((?c + 1) + (int i + 1)) mod ?p"
      by (rule mod_add_left_eq)
    then show ?thesis by (simp add: algebra_simps)
  qed
  have head: "marked w s \<longleftrightarrow> (?c + 1) mod ?p = 0"
    by (rule on_answer_inbound_marked [OF inb p0])
  show ?case
  proof (intro conjI allI impI)
    show "length (marks w (s # ss)) = length (s # ss)" using IH by simp
    show "length (counts w (s # ss)) = length (s # ss)" using IH by simp
  next
    fix i assume i: "i < length (s # ss)"
    show "marks w (s # ss) ! i \<longleftrightarrow> (?c + int i + 1) mod ?p = 0"
    proof (cases i)
      case 0
      then show ?thesis using head by simp
    next
      case (Suc j)
      with i have "j < length ss" by simp
      with IH shift [of j] Suc show ?thesis by simp
    qed
    show "counts w (s # ss) ! i = (?c + int i + 1) mod ?p"
    proof (cases i)
      case 0
      then show ?thesis using cnt by simp
    next
      case (Suc j)
      with i have "j < length ss" by simp
      with IH shift [of j] Suc show ?thesis by simp
    qed
  qed
qed

lemma window_last:
  fixes p :: int
  assumes "1 \<le> p" "int k < p"
  shows "(int (j * nat p + k) + 1) mod p = 0 \<longleftrightarrow> int k = p - 1"
proof -
  have "int (j * nat p + k) + 1 = (int k + 1) + int j * p"
    using assms by simp
  then have eq: "(int (j * nat p + k) + 1) mod p = (int k + 1) mod p"
    by (simp only: mod_mult_self1)
  show ?thesis
  proof (cases "int k + 1 = p")
    case True
    then show ?thesis using eq by simp
  next
    case False
    with assms have "int k + 1 < p" by simp
    then have "(int k + 1) mod p = int k + 1" by simp
    with eq False show ?thesis by simp
  qed
qed

text \<open>
  Claim C2, as the code has it. For a period of at least 1 and a counter starting at 0,
  over any sequence of answered inbound legs the CHANNEL_ANSWER reaction marks exactly
  the legs whose position in the sequence, counted from 1, is a multiple of the period.
  So each consecutive window of \<open>period\<close> legs holds exactly one marked leg, and it is
  the last leg of its window; the counter after a leg is the position modulo the
  period, so it is 0 after every marked leg; and with a period of 1 every leg is marked.
\<close>

theorem rate_gate_marks_last_of_window:
  assumes "1 \<le> rec_rate (app w)" "call_count (app w) = 0" "\<forall>s\<in>set ss. is_inbound w s"
  shows "length (marks w ss) = length ss
         \<and> (\<forall>i<length ss. marks w ss ! i \<longleftrightarrow> rec_rate (app w) dvd int i + 1)
         \<and> (\<forall>j k. int k < rec_rate (app w) \<and> j * nat (rec_rate (app w)) + k < length ss
               \<longrightarrow> (marks w ss ! (j * nat (rec_rate (app w)) + k) \<longleftrightarrow> int k = rec_rate (app w) - 1))
         \<and> (\<forall>i<length ss. counts w ss ! i = (int i + 1) mod rec_rate (app w))
         \<and> (\<forall>i<length ss. marks w ss ! i \<longrightarrow> counts w ss ! i = 0)
         \<and> (rec_rate (app w) = 1 \<longrightarrow> (\<forall>i<length ss. marks w ss ! i))"
proof -
  let ?p = "rec_rate (app w)"
  from assms have g: "length (marks w ss) = length ss \<and> length (counts w ss) = length ss
         \<and> (\<forall>i<length ss.
               (marks w ss ! i \<longleftrightarrow> (call_count (app w) + int i + 1) mod ?p = 0)
               \<and> counts w ss ! i = (call_count (app w) + int i + 1) mod ?p)"
    by (intro gate_general) simp_all
  then have m: "\<forall>i<length ss. marks w ss ! i \<longleftrightarrow> (int i + 1) mod ?p = 0"
    and c: "\<forall>i<length ss. counts w ss ! i = (int i + 1) mod ?p"
    using assms(2) by simp_all
  have 1: "\<forall>i<length ss. marks w ss ! i \<longleftrightarrow> ?p dvd int i + 1"
    using m by (simp add: dvd_eq_mod_eq_0)
  have 2: "\<forall>j k. int k < ?p \<and> j * nat ?p + k < length ss
               \<longrightarrow> (marks w ss ! (j * nat ?p + k) \<longleftrightarrow> int k = ?p - 1)"
    using m window_last [OF assms(1)] by simp
  have 3: "\<forall>i<length ss. marks w ss ! i \<longrightarrow> counts w ss ! i = 0"
    using m c by simp
  have 4: "?p = 1 \<longrightarrow> (\<forall>i<length ss. marks w ss ! i)"
    using m by simp
  from g 1 2 c 3 4 show ?thesis by blast
qed

theorem rate_gate_marks_last_of_window_witness:
  "1 \<le> rec_rate (app (demo_world 3 PyNone))
   \<and> call_count (app (demo_world 3 PyNone)) = 0
   \<and> is_inbound (demo_world 3 PyNone) ''a'' \<and> is_inbound (demo_world 3 PyNone) ''b''
   \<and> is_inbound (demo_world 3 PyNone) ''c'' \<and> is_inbound (demo_world 3 PyNone) ''d''
   \<and> length (marks (demo_world 3 PyNone) [''a'', ''b'', ''c'', ''d'']) = 4
   \<and> \<not> marks (demo_world 3 PyNone) [''a'', ''b'', ''c'', ''d''] ! 0
   \<and> \<not> marks (demo_world 3 PyNone) [''a'', ''b'', ''c'', ''d''] ! 1
   \<and> marks (demo_world 3 PyNone) [''a'', ''b'', ''c'', ''d''] ! 2
   \<and> \<not> marks (demo_world 3 PyNone) [''a'', ''b'', ''c'', ''d''] ! 3
   \<and> counts (demo_world 3 PyNone) [''a'', ''b'', ''c'', ''d''] ! 2 = 0"
proof -
  let ?w = "demo_world 3 PyNone"
  let ?ss = "[''a'', ''b'', ''c'', ''d'']"
  have r: "rec_rate (app ?w) = 3"
    by (simp add: demo_world_def init_world_def demo_app_def)
  have h1: "1 \<le> rec_rate (app ?w)" by (simp add: r)
  have h2: "call_count (app ?w) = 0"
    by (simp add: demo_world_def init_world_def demo_app_def)
  have h3: "\<forall>s\<in>set ?ss. is_inbound ?w s"
    by (simp add: is_inbound_def demo_world_def init_world_def demo_dir_def)
  define ms where "ms = marks ?w ?ss"
  define cs where "cs = counts ?w ?ss"
  note t = rate_gate_marks_last_of_window [OF h1 h2 h3, folded ms_def cs_def]
  from t have len: "length ms = 4" by simp
  from t have m: "\<forall>i<4. ms ! i \<longleftrightarrow> (3::int) dvd int i + 1"
    by (simp add: r)
  from t have c: "\<forall>i<4. cs ! i = (int i + 1) mod 3"
    by (simp add: r)
  have m0: "\<not> ms ! 0" using m by simp
  have m1: "\<not> ms ! 1" using m by simp
  have m2: "ms ! 2" using m by simp
  have m3: "\<not> ms ! 3" using m by simp
  have c2: "cs ! 2 = 0" using c by simp
  from h3 have h3': "is_inbound ?w ''a'' \<and> is_inbound ?w ''b''
      \<and> is_inbound ?w ''c'' \<and> is_inbound ?w ''d''"
    by simp
  from h1 h2 h3' len m0 m1 m2 m3 c2 show ?thesis
    unfolding ms_def cs_def by blast
qed

text \<open>The claim as stated fails: with a period of 2 and a fresh counter, the first
  answered inbound leg, which is the first of its window, is not marked; the second is.\<close>

theorem rate_gate_first_of_window_counterexample:
  "rec_rate (app (demo_world 2 PyNone)) = 2
   \<and> call_count (app (demo_world 2 PyNone)) = 0
   \<and> is_inbound (demo_world 2 PyNone) ''a''
   \<and> is_inbound (demo_world 2 PyNone) ''b''
   \<and> marks (demo_world 2 PyNone) [''a'', ''b''] = [False, True]"
  by (simp add: marked_def on_answer_def world_defs Let_def demo_world_def init_world_def
        demo_app_def demo_dir_def demo_call_def)

subsection \<open>Frame lemmas\<close>

lemma emit_proj [simp]:
  "app (emit c w) = app w" "direction_of (emit c w) = direction_of w"
  "call_of (emit c w) = call_of w" "peer_of (emit c w) = peer_of w"
  "svars (emit c w) = svars w" "cvars (emit c w) = cvars w"
  "cmds (emit c w) = cmds w @ [c]"
  by (simp_all add: emit_def)

lemma set_clip_proj [simp]:
  "app (set_clip s v w) = app w" "direction_of (set_clip s v w) = direction_of w"
  "call_of (set_clip s v w) = call_of w" "peer_of (set_clip s v w) = peer_of w"
  "svars (set_clip s v w) = (svars w)(s := (svars w s)\<lparr>clip := Some v\<rparr>)"
  "cvars (set_clip s v w) = cvars w" "cmds (set_clip s v w) = cmds w"
  by (simp_all add: set_clip_def)

lemma set_recorded_proj [simp]:
  "app (set_recorded s b w) = app w" "direction_of (set_recorded s b w) = direction_of w"
  "call_of (set_recorded s b w) = call_of w" "peer_of (set_recorded s b w) = peer_of w"
  "svars (set_recorded s b w) = (svars w)(s := (svars w s)\<lparr>recorded := Some b\<rparr>)"
  "cvars (set_recorded s b w) = cvars w" "cmds (set_recorded s b w) = cmds w"
  by (simp_all add: set_recorded_def)

lemma upd_call_proj [simp]:
  "app (upd_call c f w) = app w" "direction_of (upd_call c f w) = direction_of w"
  "call_of (upd_call c f w) = call_of w" "peer_of (upd_call c f w) = peer_of w"
  "svars (upd_call c f w) = svars w"
  "cvars (upd_call c f w) = (cvars w)(c := f (cvars w c))" "cmds (upd_call c f w) = cmds w"
  by (simp_all add: upd_call_def)

lemma register_rec_proj [simp]:
  "app (register_rec c k p w) = (app w)\<lparr>call2recs :=
        (call2recs (app w))(c \<mapsto>
          (case call2recs (app w) c of None \<Rightarrow> Map.empty | Some d \<Rightarrow> d)(k \<mapsto> p))\<rparr>"
  "direction_of (register_rec c k p w) = direction_of w"
  "call_of (register_rec c k p w) = call_of w" "peer_of (register_rec c k p w) = peer_of w"
  "svars (register_rec c k p w) = svars w"
  "cvars (register_rec c k p w) = cvars w" "cmds (register_rec c k p w) = cmds w"
  by (simp_all add: register_rec_def)

lemmas topo_defs = is_inbound_def is_outbound_def get_peer_def

lemma same_static_refl [simp]: "same_static w w"
  by (simp add: same_static_def)

lemma same_static_trans: "same_static w w' \<Longrightarrow> same_static w' w'' \<Longrightarrow> same_static w w''"
  by (simp add: same_static_def)

lemma on_create_static: "same_static w (snd (on_create w s))"
  by (simp add: on_create_def same_static_def)

lemma on_park_static: "same_static w (snd (on_park w s))"
  by (simp add: on_park_def same_static_def)

lemma trigger_playback_static: "same_static w (snd (trigger_playback w s))"
  by (simp add: trigger_playback_def same_static_def get_peer_def split: option.split)

lemma on_play_static: "same_static w (snd (on_play w s fp))"
  by (simp add: on_play_def same_static_def get_peer_def Let_def split: option.split)

lemma on_rec_static: "same_static w (snd (on_rec w s))"
  using trigger_playback_static [of "set_recorded s False w" s]
  by (simp add: on_rec_def Let_def same_static_def)


lemma on_stop_static: "same_static w (snd (on_stop w s))"
  by (simp add: on_stop_def same_static_def get_peer_def Let_def split: option.split)

lemma on_recstop_static: "same_static w (snd (on_recstop w s))"
  by (simp add: on_recstop_def same_static_def get_peer_def Let_def split: option.split)

lemma on_answer_static: "same_static w (snd (on_answer w s))"
proof (cases "direction_of w s")
  case Inbound
  then have out: "\<And>w'. direction_of w' = direction_of w \<Longrightarrow> \<not> is_outbound w' s"
    by (simp add: is_outbound_def)
  show ?thesis
  proof (cases "rec_rate (app w) = 0")
    case True
    with Inbound show ?thesis
      by (simp add: on_answer_def same_static_def is_inbound_def seq_def Let_def)
  next
    case False
    show ?thesis
    proof (cases "(call_count (app w) + 1) mod rec_rate (app w) = 0")
      case True
      with Inbound False show ?thesis
        by (simp add: on_answer_def same_static_def topo_defs seq_def Let_def)
    next
      case nz: False
      with Inbound False show ?thesis
        by (simp add: on_answer_def same_static_def topo_defs seq_def Let_def)
    qed
  qed
next
  case Outbound
  then show ?thesis
    using trigger_playback_static [of w s]
    by (simp add: on_answer_def same_static_def topo_defs seq_def Let_def)
qed

lemma setduration_static:
  assumes "setduration a v = Inr a'"
  shows "audiofile a' = audiofile a \<and> silence a' = silence a
       \<and> host a' = host a \<and> callback a' = callback a
       \<and> recsdir a' = recsdir a \<and> stereo a' = stereo a
       \<and> rec_rate a' = rec_rate a \<and> call2recs a' = call2recs a
       \<and> call_count a' = call_count a \<and> clip_length a' = clip_length a"
proof (cases "py_divmod v (clip_length a)")
  case (Inl e)
  with assms show ?thesis by (simp add: setduration_def)
next
  case (Inr qr)
  obtain q r where qr: "qr = (q, r)" by (cases qr)
  show ?thesis
  proof (cases "r < 1")
    case True
    with assms Inr qr have "a' = a\<lparr>iterations := q, tail := 1\<rparr>"
      by (simp add: setduration_def Let_def)
    then show ?thesis by simp
  next
    case False
    with assms Inr qr have "a' = a\<lparr>iterations := q, tail := r\<rparr>"
      by (simp add: setduration_def Let_def)
    then show ?thesis by simp
  qed
qed

lemma react_static: "same_static w (snd (react w ev))"
proof (cases ev)
  case (SetDuration v)
  show ?thesis
  proof (cases "setduration (app w) v")
    case (Inl e)
    then show ?thesis using SetDuration by simp
  next
    case (Inr a)
    from setduration_static [OF Inr] show ?thesis
      using SetDuration Inr by (simp add: same_static_def)
  qed
qed (simp_all add: on_create_static on_park_static on_answer_static on_play_static
       on_stop_static on_rec_static on_recstop_static setrate_def)

lemma run_static: "same_static w (run w evs)"
proof (induction evs arbitrary: w)
  case Nil
  show ?case by simp
next
  case (Cons e es)
  from react_static [of w e] Cons [of "snd (react w e)"] show ?case
    by (simp add: same_static_trans)
qed



lemma init_world_proj [simp]:
  "app (init_world a dir callf peerf) = a"
  "direction_of (init_world a dir callf peerf) = dir"
  "call_of (init_world a dir callf peerf) = callf"
  "peer_of (init_world a dir callf peerf) = peerf"
  "cmds (init_world a dir callf peerf) = []"
  by (simp_all add: init_world_def)

subsection \<open>The playback sequence\<close>




subsection \<open>Answering\<close>

lemma on_answer_outbound:
  assumes "is_outbound w sid"
  shows "on_answer w sid
     = (if record_var (cvars w (call_of w sid)) = Some True
        then (None, register_rec (call_of w sid) ''caller''
                      (recsdir (app w) @ ''/caller_'' @ sid @ ''.wav'')
                      (emit (StartRecord sid (recsdir (app w) @ ''/caller_'' @ sid @ ''.wav'')
                               (stereo (app w))) w))
        else trigger_playback w sid)"
  using assms by (simp add: on_answer_def topo_defs seq_def Let_def)

lemma on_answer_inbound_marking:
  assumes "is_inbound w sid" "rec_rate (app w) \<noteq> 0"
    "(call_count (app w) + 1) mod rec_rate (app w) = 0"
  shows "fst (on_answer w sid) = None"
    and "cmds (snd (on_answer w sid))
          = cmds w @ [StartRecord sid (recsdir (app w) @ ''/callee_'' @ sid @ ''.wav'')
                        (stereo (app w))]"
    and "record_var (cvars (snd (on_answer w sid)) (call_of w sid)) = Some True"
    and "rec_path (snd (on_answer w sid)) (call_of w sid) ''callee''
          = Some (recsdir (app w) @ ''/callee_'' @ sid @ ''.wav'')"
    and "rec_path (snd (on_answer w sid)) (call_of w sid) ''caller''
          = rec_path w (call_of w sid) ''caller''"
    and "svars (snd (on_answer w sid)) = svars w"
  using assms
  by (simp_all add: on_answer_def topo_defs seq_def Let_def rec_path_def split: option.split)

lemma new_cmds_append [simp]: "cmds w' = cmds w @ xs \<Longrightarrow> new_cmds w w' = xs"
  by (simp add: new_cmds_def)

lemma no_start_create: "\<not> list_ex (is_start_record_for s) (new_cmds w (snd (on_create w t)))"
  by (simp add: on_create_def new_cmds_def)

lemma no_start_park: "\<not> list_ex (is_start_record_for s) (new_cmds w (snd (on_park w t)))"
  by (simp add: on_park_def new_cmds_def)

lemma no_start_trigger:
  "\<not> list_ex (is_start_record_for s) (new_cmds w (snd (trigger_playback w t)))"
  by (simp add: trigger_playback_def get_peer_def new_cmds_def split: option.split)

lemma no_start_play: "\<not> list_ex (is_start_record_for s) (new_cmds w (snd (on_play w t fp)))"
  by (simp add: on_play_def get_peer_def Let_def new_cmds_def split: option.split)

lemma no_start_stop: "\<not> list_ex (is_start_record_for s) (new_cmds w (snd (on_stop w t)))"
  by (simp add: on_stop_def get_peer_def Let_def new_cmds_def split: option.split)

lemma no_start_rec: "\<not> list_ex (is_start_record_for s) (new_cmds w (snd (on_rec w t)))"
  using no_start_trigger [of s "set_recorded t False w" t]
  by (simp add: on_rec_def Let_def new_cmds_def)

lemma no_start_recstop: "\<not> list_ex (is_start_record_for s) (new_cmds w (snd (on_recstop w t)))"
  by (simp add: on_recstop_def get_peer_def Let_def new_cmds_def split: option.split)

lemma no_start_answer_other:
  assumes "t \<noteq> s"
  shows "\<not> list_ex (is_start_record_for s) (new_cmds w (snd (on_answer w t)))"
proof (cases "direction_of w t")
  case Inbound
  show ?thesis
  proof (cases "rec_rate (app w) = 0")
    case True
    with Inbound show ?thesis
      by (simp add: on_answer_def topo_defs seq_def Let_def new_cmds_def)
  next
    case False
    with Inbound assms show ?thesis
      by (cases "(call_count (app w) + 1) mod rec_rate (app w) = 0")
         (simp_all add: on_answer_def topo_defs seq_def Let_def new_cmds_def)
  qed
next
  case Outbound
  then have "is_outbound w t" by (simp add: is_outbound_def)
  from on_answer_outbound [OF this] no_start_trigger [of s w t] assms show ?thesis
    by (simp add: new_cmds_def)
qed

lemma start_record_only_by_own_answer:
  assumes "ev \<noteq> ChannelAnswer s"
  shows "\<not> list_ex (is_start_record_for s) (new_cmds w (snd (react w ev)))"
proof (cases ev)
  case (ChannelAnswer t)
  with assms have "t \<noteq> s" by simp
  from no_start_answer_other [OF this] ChannelAnswer show ?thesis by simp
next
  case (SetDuration v)
  then show ?thesis by (cases "setduration (app w) v") (simp_all add: new_cmds_def)
next
  case (SetRate v)
  then show ?thesis by (simp add: new_cmds_def)
qed (simp_all add: no_start_create no_start_park no_start_play no_start_stop no_start_rec
       no_start_recstop)

text \<open>
  Claim C10. The outbound half of the CHANNEL_ANSWER reaction depends on nothing but
  the record flag of the call: when the flag is set it starts the recording of the
  caller leg and registers its path, otherwise it runs \<^verbatim>\<open>trigger_playback\<close>. So when the
  outbound leg of a call is answered while the flag is not set, the playback sequence is
  triggered; when the inbound leg is answered next and the rate gate marks the call, the
  flag is set and only the callee leg is asked to record, and no caller path is
  registered. No later reaction asks the caller leg to record either: a command to start
  recording a session is only ever sent by the CHANNEL_ANSWER reaction of that session.
\<close>

theorem outbound_answer_before_inbound:
  assumes "is_outbound w out" and "is_inbound w inb"
    and "call_of w inb = call_of w out" and "peer_of w out = Some inb"
    and "record_var (cvars w (call_of w out)) \<noteq> Some True"
    and "rec_rate (app w) \<noteq> 0" and "(call_count (app w) + 1) mod rec_rate (app w) = 0"
    and "w1 = snd (on_answer w out)" and "w2 = snd (on_answer w1 inb)"
  shows "(\<forall>w' s. is_outbound w' s \<longrightarrow>
            on_answer w' s
              = (if record_var (cvars w' (call_of w' s)) = Some True
                 then (None, register_rec (call_of w' s) ''caller''
                               (recsdir (app w') @ ''/caller_'' @ s @ ''.wav'')
                               (emit (StartRecord s (recsdir (app w') @ ''/caller_'' @ s @ ''.wav'')
                                        (stereo (app w'))) w'))
                 else trigger_playback w' s))
     \<and> on_answer w out = trigger_playback w out
     \<and> fst (on_answer w out) = None
     \<and> cmds w1 = cmds w @ [Playback inb (silence (app w))]
     \<and> playback_count (cvars w1 (call_of w out)) = Some 0
     \<and> fst (on_answer w1 inb) = None
     \<and> record_var (cvars w2 (call_of w out)) = Some True
     \<and> cmds w2 = cmds w @ [Playback inb (silence (app w)),
                           StartRecord inb (recsdir (app w) @ ''/callee_'' @ inb @ ''.wav'')
                             (stereo (app w))]
     \<and> rec_path w2 (call_of w out) ''caller'' = rec_path w (call_of w out) ''caller''
     \<and> (\<forall>w' ev. ev \<noteq> ChannelAnswer out \<longrightarrow>
            \<not> list_ex (is_start_record_for out) (new_cmds w' (snd (react w' ev))))"
proof -
  have gen: "\<forall>w' s. is_outbound w' s \<longrightarrow>
            on_answer w' s
              = (if record_var (cvars w' (call_of w' s)) = Some True
                 then (None, register_rec (call_of w' s) ''caller''
                               (recsdir (app w') @ ''/caller_'' @ s @ ''.wav'')
                               (emit (StartRecord s (recsdir (app w') @ ''/caller_'' @ s @ ''.wav'')
                                        (stereo (app w'))) w'))
                 else trigger_playback w' s)"
    using on_answer_outbound by blast
  have a1: "on_answer w out = trigger_playback w out"
    using on_answer_outbound [OF assms(1)] assms(5) by simp
  have t: "trigger_playback w out
     = (None, upd_call (call_of w out) (\<lambda>v. v\<lparr>playback_count := Some 0\<rparr>)
                (set_clip inb ''silence'' (emit (Playback inb (silence (app w))) w)))"
    using assms(4) by (simp add: trigger_playback_def get_peer_def)
  have w1: "w1 = upd_call (call_of w out) (\<lambda>v. v\<lparr>playback_count := Some 0\<rparr>)
                (set_clip inb ''silence'' (emit (Playback inb (silence (app w))) w))"
    using assms(8) a1 t by simp
  have f1: "fst (on_answer w out) = None" using a1 t by simp
  have c1: "cmds w1 = cmds w @ [Playback inb (silence (app w))]" by (simp add: w1)
  have pc: "playback_count (cvars w1 (call_of w out)) = Some 0" by (simp add: w1)
  have app1: "app w1 = app w" and call1: "call_of w1 = call_of w" by (simp_all add: w1)
  have inb1: "is_inbound w1 inb" using assms(2) by (simp add: is_inbound_def w1)
  have r1: "rec_rate (app w1) \<noteq> 0" "(call_count (app w1) + 1) mod rec_rate (app w1) = 0"
    using assms(6,7) by (simp_all add: app1)
  note m = on_answer_inbound_marking [OF inb1 r1]
  have f2: "fst (on_answer w1 inb) = None" by (rule m(1))
  have c2: "cmds w2 = cmds w @ [Playback inb (silence (app w)),
                           StartRecord inb (recsdir (app w) @ ''/callee_'' @ inb @ ''.wav'')
                             (stereo (app w))]"
    using m(2) by (simp add: assms(9) c1 app1)
  have rv: "record_var (cvars w2 (call_of w out)) = Some True"
    using m(3) by (simp add: assms(9) call1 assms(3))
  have "rec_path w2 (call_of w out) ''caller'' = rec_path w1 (call_of w out) ''caller''"
    using m(5) by (simp add: assms(9) call1 assms(3))
  also have "\<dots> = rec_path w (call_of w out) ''caller''"
    by (simp add: rec_path_def app1)
  finally have rp: "rec_path w2 (call_of w out) ''caller'' = rec_path w (call_of w out) ''caller''" .
  have only: "\<forall>w' ev. ev \<noteq> ChannelAnswer out \<longrightarrow>
            \<not> list_ex (is_start_record_for out) (new_cmds w' (snd (react w' ev)))"
    using start_record_only_by_own_answer by blast
  from gen a1 f1 c1 pc f2 rv c2 rp only show ?thesis by blast
qed


theorem outbound_answer_before_inbound_witness:
  "is_outbound (demo_world 1 PyNone) ''out1'' \<and> is_inbound (demo_world 1 PyNone) ''in1''
   \<and> call_of (demo_world 1 PyNone) ''in1'' = call_of (demo_world 1 PyNone) ''out1''
   \<and> peer_of (demo_world 1 PyNone) ''out1'' = Some ''in1''
   \<and> record_var (cvars (demo_world 1 PyNone) (call_of (demo_world 1 PyNone) ''out1'')) \<noteq> Some True
   \<and> rec_rate (app (demo_world 1 PyNone)) \<noteq> 0
   \<and> (call_count (app (demo_world 1 PyNone)) + 1) mod rec_rate (app (demo_world 1 PyNone)) = 0
   \<and> cmds (snd (on_answer (snd (on_answer (demo_world 1 PyNone) ''out1'')) ''in1''))
       = [Playback ''in1'' ''silence_stream://0'',
          StartRecord ''in1'' ''/recs/callee_in1.wav'' False]
   \<and> record_var (cvars (snd (on_answer (snd (on_answer (demo_world 1 PyNone) ''out1'')) ''in1''))
                   ''c1'') = Some True
   \<and> rec_path (snd (on_answer (snd (on_answer (demo_world 1 PyNone) ''out1'')) ''in1''))
        ''c1'' ''caller'' = None"
proof -
  let ?w = "demo_world 1 PyNone"
  have h1: "is_outbound ?w ''out1''"
    by (simp add: is_outbound_def demo_world_def demo_dir_def)
  have h2: "is_inbound ?w ''in1''"
    by (simp add: is_inbound_def demo_world_def demo_dir_def)
  have c: "call_of ?w ''out1'' = ''c1''" "call_of ?w ''in1'' = ''c1''"
    by (simp_all add: demo_world_def demo_call_def)
  have h3: "call_of ?w ''in1'' = call_of ?w ''out1''" by (simp add: c)
  have h4: "peer_of ?w ''out1'' = Some ''in1''"
    by (simp add: demo_world_def demo_peer_def)
  have h5: "record_var (cvars ?w (call_of ?w ''out1'')) \<noteq> Some True"
    by (simp add: demo_world_def init_world_def)
  have a: "rec_rate (app ?w) = 1" "call_count (app ?w) = 0" "silence (app ?w) = ''silence_stream://0''"
    "recsdir (app ?w) = ''/recs''" "stereo (app ?w) = False" "cmds ?w = []"
    "call2recs (app ?w) = Map.empty"
    by (simp_all add: demo_world_def demo_app_def)
  have h6: "rec_rate (app ?w) \<noteq> 0" by (simp add: a)
  have h7: "(call_count (app ?w) + 1) mod rec_rate (app ?w) = 0" by (simp add: a)
  note t = outbound_answer_before_inbound [OF h1 h2 h3 h4 h5 h6 h7 refl refl]
  from t have "cmds (snd (on_answer (snd (on_answer ?w ''out1'')) ''in1''))
       = cmds ?w @ [Playback ''in1'' (silence (app ?w)),
                    StartRecord ''in1'' (recsdir (app ?w) @ ''/callee_'' @ ''in1'' @ ''.wav'')
                      (stereo (app ?w))]"
    by blast
  then have 1: "cmds (snd (on_answer (snd (on_answer ?w ''out1'')) ''in1''))
       = [Playback ''in1'' ''silence_stream://0'',
          StartRecord ''in1'' ''/recs/callee_in1.wav'' False]"
    by (simp add: a)
  from t have "record_var (cvars (snd (on_answer (snd (on_answer ?w ''out1'')) ''in1''))
                  (call_of ?w ''out1'')) = Some True"
    by blast
  then have 2: "record_var (cvars (snd (on_answer (snd (on_answer ?w ''out1'')) ''in1'')) ''c1'')
       = Some True"
    by (simp add: c)
  from t have "rec_path (snd (on_answer (snd (on_answer ?w ''out1'')) ''in1''))
                  (call_of ?w ''out1'') ''caller''
       = rec_path ?w (call_of ?w ''out1'') ''caller''"
    by blast
  then have 3: "rec_path (snd (on_answer (snd (on_answer ?w ''out1'')) ''in1'')) ''c1'' ''caller'' = None"
    by (simp add: c rec_path_def a)
  from h1 h2 h3 h4 h5 h6 h7 1 2 3 show ?thesis by blast
qed

subsection \<open>Facts that hold in every reachable state\<close>

lemmas handler_defs = on_create_def on_park_def on_answer_def on_play_def on_stop_def
  on_rec_def on_recstop_def trigger_playback_def

lemmas demo_defs = demo_world_def init_world_def demo_app_def demo_dir_def demo_call_def
  demo_peer_def

lemma callbacks_append [simp]: "callbacks (xs @ ys) = callbacks xs @ callbacks ys"
  by (induction xs rule: callbacks.induct) simp_all

lemma quiet_refl [simp]: "quiet w w"
  by (simp add: quiet_def)

lemma quiet_inv:
  assumes "quiet w w'" "recs_imply_flag w \<and> callbacks_flagged w"
  shows "recs_imply_flag w' \<and> callbacks_flagged w'"
  using assms by (simp add: quiet_def recs_imply_flag_def callbacks_flagged_def)

lemma on_create_quiet: "quiet w (snd (on_create w s))"
  by (simp add: on_create_def quiet_def)

lemma on_park_quiet: "quiet w (snd (on_park w s))"
  by (simp add: on_park_def quiet_def)

lemma trigger_playback_quiet: "quiet w (snd (trigger_playback w s))"
  by (simp add: trigger_playback_def quiet_def get_peer_def split: option.split)

lemma on_play_quiet: "quiet w (snd (on_play w s fp))"
  by (simp add: on_play_def quiet_def get_peer_def Let_def split: option.split)

lemma on_stop_quiet: "quiet w (snd (on_stop w s))"
  by (simp add: on_stop_def quiet_def get_peer_def Let_def split: option.split)

lemma on_rec_quiet: "quiet w (snd (on_rec w s))"
  using trigger_playback_quiet [of "set_recorded s False w" s]
  by (simp add: on_rec_def Let_def quiet_def)


lemma on_recstop_inv:
  assumes "recs_imply_flag w \<and> callbacks_flagged w"
  shows "recs_imply_flag (snd (on_recstop w s)) \<and> callbacks_flagged (snd (on_recstop w s))"
proof -
  let ?w = "snd (on_recstop w s)"
  have same: "call2recs (app ?w) = call2recs (app w)" "cvars ?w = cvars w" "call_of ?w = call_of w"
    by (simp_all add: on_recstop_def get_peer_def Let_def split: option.split)
  have cb: "callbacks (cmds ?w) = callbacks (cmds w)
            \<or> (call2recs (app w) (call_of w s) \<noteq> None
               \<and> (\<exists>info. callbacks (cmds ?w) = callbacks (cmds w) @ [(s, info)]))"
    by (simp add: on_recstop_def get_peer_def Let_def split: option.split)
  from assms have r: "recs_imply_flag ?w"
    by (simp add: recs_imply_flag_def same)
  have "callbacks_flagged ?w"
    unfolding callbacks_flagged_def same
  proof (intro allI impI)
    fix sid info
    assume m: "(sid, info) \<in> set (callbacks (cmds ?w))"
    from cb show "record_var (cvars w (call_of w sid)) = Some True"
    proof
      assume "callbacks (cmds ?w) = callbacks (cmds w)"
      with m have "(sid, info) \<in> set (callbacks (cmds w))" by simp
      with assms show ?thesis unfolding callbacks_flagged_def by blast
    next
      assume "call2recs (app w) (call_of w s) \<noteq> None
               \<and> (\<exists>info. callbacks (cmds ?w) = callbacks (cmds w) @ [(s, info)])"
      then obtain i where n: "call2recs (app w) (call_of w s) \<noteq> None"
        and e: "callbacks (cmds ?w) = callbacks (cmds w) @ [(s, i)]" by blast
      from m e have "sid = s \<or> (sid, info) \<in> set (callbacks (cmds w))" by auto
      with assms n show ?thesis
        unfolding callbacks_flagged_def recs_imply_flag_def by blast
    qed
  qed
  with r show ?thesis by simp
qed

lemma on_answer_inv:
  assumes "recs_imply_flag w \<and> callbacks_flagged w"
  shows "recs_imply_flag (snd (on_answer w s)) \<and> callbacks_flagged (snd (on_answer w s))"
proof (cases "direction_of w s")
  case Inbound
  show ?thesis
  proof (cases "rec_rate (app w) = 0")
    case True
    with Inbound assms show ?thesis
      by (simp add: on_answer_def topo_defs seq_def Let_def recs_imply_flag_def
            callbacks_flagged_def)
  next
    case False
    with Inbound assms show ?thesis
      by (cases "(call_count (app w) + 1) mod rec_rate (app w) = 0")
         (auto simp: on_answer_def topo_defs seq_def Let_def recs_imply_flag_def
            callbacks_flagged_def)
  qed
next
  case Outbound
  then have out: "is_outbound w s" by (simp add: is_outbound_def)
  show ?thesis
  proof (cases "record_var (cvars w (call_of w s)) = Some True")
    case True
    with assms on_answer_outbound [OF out] show ?thesis
      by (simp add: recs_imply_flag_def callbacks_flagged_def)
  next
    case False
    with on_answer_outbound [OF out] have "on_answer w s = trigger_playback w s" by simp
    with quiet_inv [OF trigger_playback_quiet assms, of s] show ?thesis by simp
  qed
qed

lemma react_inv:
  assumes "recs_imply_flag w \<and> callbacks_flagged w"
  shows "recs_imply_flag (snd (react w ev)) \<and> callbacks_flagged (snd (react w ev))"
proof (cases ev)
  case (ChannelCreate s)
  with quiet_inv [OF on_create_quiet assms] show ?thesis by simp
next
  case (ChannelPark s)
  with quiet_inv [OF on_park_quiet assms] show ?thesis by simp
next
  case (ChannelAnswer s)
  with on_answer_inv [OF assms] show ?thesis by simp
next
  case (PlaybackStart s fp)
  with quiet_inv [OF on_play_quiet assms] show ?thesis by simp
next
  case (PlaybackStop s)
  with quiet_inv [OF on_stop_quiet assms] show ?thesis by simp
next
  case (RecordStart s)
  with quiet_inv [OF on_rec_quiet assms] show ?thesis by simp
next
  case (RecordStop s)
  with on_recstop_inv [OF assms] show ?thesis by simp
next
  case (SetDuration v)
  show ?thesis
  proof (cases "setduration (app w) v")
    case (Inl e)
    with SetDuration assms show ?thesis by simp
  next
    case (Inr a)
    from setduration_static [OF Inr] have "call2recs a = call2recs (app w)" by simp
    with SetDuration Inr assms show ?thesis
      by (simp add: recs_imply_flag_def callbacks_flagged_def)
  qed
next
  case (SetRate v)
  with assms show ?thesis
    by (simp add: setrate_def recs_imply_flag_def callbacks_flagged_def)
qed

lemma run_inv:
  assumes "recs_imply_flag w \<and> callbacks_flagged w"
  shows "recs_imply_flag (run w evs) \<and> callbacks_flagged (run w evs)"
  using assms
proof (induction evs arbitrary: w)
  case Nil
  then show ?case by simp
next
  case (Cons e es)
  from Cons.IH [OF react_inv [OF Cons.prems]] show ?case by simp
qed

lemma init_inv:
  assumes "prepost cl fname cat clen sr iters cb rate st = Inr a"
  shows "recs_imply_flag (init_world a dir callf peerf)
         \<and> callbacks_flagged (init_world a dir callf peerf)"
proof -
  from assms have "call2recs a = Map.empty"
    by (auto simp: prepost_def split: if_splits)
  then show ?thesis
    by (simp add: recs_imply_flag_def callbacks_flagged_def)
qed

lemma signal_flow_state:
  "clip (svars (run (demo_world 2 cb) signal_flow) ''out1'') = Some ''signal''"
  "clip (svars (run (demo_world 2 cb) signal_flow) ''in1'') = Some ''silence''"
  "cvars (run (demo_world 2 cb) signal_flow) ''c1''
     = \<lparr>noautohangup = Some True, record_var = None, iterations_var = Some 1,
        tail_var = Some 1, playback_count = Some 0\<rparr>"
  "cmds (run (demo_world 2 cb) signal_flow)
     = [Answer ''in1'', Playback ''in1'' ''silence_stream://0'', Breakapp ''out1'',
        Playback ''out1'' ''/sounds/ivr/8000/ivr-founder_of_freesource.wav'']"
  "call2recs (app (run (demo_world 2 cb) signal_flow)) = Map.empty"
  by (simp_all add: signal_flow_def handler_defs topo_defs seq_def demo_defs Let_def)

subsection \<open>Calls that are not recorded\<close>

lemma on_stop_final_unrecorded:
  assumes "clip (svars w sid) = Some ''signal''"
    and "playback_count (cvars w (call_of w sid)) = Some n"
    and "iterations_var (cvars w (call_of w sid)) = Some it"
    and "\<not> of_int (n + 1) < it"
    and "record_var (cvars w (call_of w sid)) \<noteq> Some True"
  shows "on_stop w sid
     = (None, emit (SchedHangup sid (1 / 2))
                (upd_call (call_of w sid) (\<lambda>v. v\<lparr>playback_count := Some (n + 1)\<rparr>) w))"
  using assms by (simp add: on_stop_def Let_def)

text \<open>
  Claim C5. In every state the app reaches from construction, by whatever sequence of
  events, a call whose record flag is not set has no invocation of the completion
  callback in the log: none was ever made in the reaction of one of its sessions. And for
  such a call, the PLAYBACK_STOP reaction of a leg playing the reference clip whose
  increment brings the playback count up to the iterations of the call completes, sends
  exactly one command, the scheduled hangup of that leg with a delay of 0.5 seconds, and
  stores the incremented count.
\<close>

theorem unrecorded_call_no_callback:
  assumes "prepost cl fname cat clen sr iters cb rate st = Inr a"
    and "w = run (init_world a dir callf peerf) evs"
  shows "(\<forall>c. record_var (cvars w c) \<noteq> Some True \<longrightarrow>
            (\<forall>sid info. (sid, info) \<in> set (callbacks (cmds w)) \<longrightarrow> callf sid \<noteq> c))
     \<and> (\<forall>sid n it.
            clip (svars w sid) = Some ''signal''
            \<and> playback_count (cvars w (callf sid)) = Some n
            \<and> iterations_var (cvars w (callf sid)) = Some it
            \<and> \<not> of_int (n + 1) < it
            \<and> record_var (cvars w (callf sid)) \<noteq> Some True
            \<longrightarrow> fst (on_stop w sid) = None
                \<and> cmds (snd (on_stop w sid)) = cmds w @ [SchedHangup sid (1 / 2)]
                \<and> playback_count (cvars (snd (on_stop w sid)) (callf sid)) = Some (n + 1))"
proof -
  from run_static [of "init_world a dir callf peerf" evs] assms(2)
  have cf: "call_of w = callf" by (simp add: same_static_def)
  from run_inv [OF init_inv [OF assms(1)], of dir callf peerf evs] assms(2)
  have "callbacks_flagged w" by simp
  then have 1: "\<forall>c. record_var (cvars w c) \<noteq> Some True \<longrightarrow>
            (\<forall>sid info. (sid, info) \<in> set (callbacks (cmds w)) \<longrightarrow> callf sid \<noteq> c)"
    unfolding callbacks_flagged_def cf by blast
  have 2: "\<forall>sid n it.
            clip (svars w sid) = Some ''signal''
            \<and> playback_count (cvars w (callf sid)) = Some n
            \<and> iterations_var (cvars w (callf sid)) = Some it
            \<and> \<not> of_int (n + 1) < it
            \<and> record_var (cvars w (callf sid)) \<noteq> Some True
            \<longrightarrow> fst (on_stop w sid) = None
                \<and> cmds (snd (on_stop w sid)) = cmds w @ [SchedHangup sid (1 / 2)]
                \<and> playback_count (cvars (snd (on_stop w sid)) (callf sid)) = Some (n + 1)"
  proof (intro allI impI)
    fix sid n it
    assume h: "clip (svars w sid) = Some ''signal''
            \<and> playback_count (cvars w (callf sid)) = Some n
            \<and> iterations_var (cvars w (callf sid)) = Some it
            \<and> \<not> of_int (n + 1) < it
            \<and> record_var (cvars w (callf sid)) \<noteq> Some True"
    then have "on_stop w sid
     = (None, emit (SchedHangup sid (1 / 2))
                (upd_call (call_of w sid) (\<lambda>v. v\<lparr>playback_count := Some (n + 1)\<rparr>) w))"
      using on_stop_final_unrecorded [of w sid n it] by (simp add: cf)
    then show "fst (on_stop w sid) = None
                \<and> cmds (snd (on_stop w sid)) = cmds w @ [SchedHangup sid (1 / 2)]
                \<and> playback_count (cvars (snd (on_stop w sid)) (callf sid)) = Some (n + 1)"
      by (simp add: cf)
  qed
  from 1 2 show ?thesis by blast
qed

theorem unrecorded_call_no_callback_witness:
  "prepost demo_client ''ivr-founder_of_freesource.wav'' ''ivr'' (17 / 4) 8000 1
      (PyFunction [''recinfo'']) 2 False = Inr (demo_app 2 (PyFunction [''recinfo'']))
   \<and> record_var (cvars (run (demo_world 2 (PyFunction [''recinfo''])) signal_flow) ''c1'') \<noteq> Some True
   \<and> callbacks (cmds (run (demo_world 2 (PyFunction [''recinfo''])) signal_flow)) = []
   \<and> fst (on_stop (run (demo_world 2 (PyFunction [''recinfo''])) signal_flow) ''out1'') = None
   \<and> cmds (snd (on_stop (run (demo_world 2 (PyFunction [''recinfo''])) signal_flow) ''out1''))
       = [Answer ''in1'', Playback ''in1'' ''silence_stream://0'', Breakapp ''out1'',
          Playback ''out1'' ''/sounds/ivr/8000/ivr-founder_of_freesource.wav'',
          SchedHangup ''out1'' (1 / 2)]"
proof -
  let ?cb = "PyFunction [''recinfo'']"
  let ?w = "run (demo_world 2 ?cb) signal_flow"
  have h1: "prepost demo_client ''ivr-founder_of_freesource.wav'' ''ivr'' (17 / 4) 8000 1 ?cb 2 False
     = Inr (demo_app 2 ?cb)"
    by (rule prepost_demo) simp
  have h2: "?w = run (init_world (demo_app 2 ?cb) demo_dir demo_call demo_peer) signal_flow"
    by (simp add: demo_world_def)
  note t = unrecorded_call_no_callback [OF h1 h2]
  note s = signal_flow_state [of ?cb]
  have c: "demo_call ''out1'' = ''c1''" by (simp add: demo_call_def)
  have flag: "record_var (cvars ?w ''c1'') \<noteq> Some True" by (simp add: s)
  have cbs: "callbacks (cmds ?w) = []" by (simp add: s)
  have pre: "clip (svars ?w ''out1'') = Some ''signal''
            \<and> playback_count (cvars ?w (demo_call ''out1'')) = Some 0
            \<and> iterations_var (cvars ?w (demo_call ''out1'')) = Some 1
            \<and> \<not> of_int (0 + 1) < (1::rat)
            \<and> record_var (cvars ?w (demo_call ''out1'')) \<noteq> Some True"
    by (simp add: s c)
  from t have "fst (on_stop ?w ''out1'') = None
                \<and> cmds (snd (on_stop ?w ''out1'')) = cmds ?w @ [SchedHangup ''out1'' (1 / 2)]"
    using pre by blast
  then have "fst (on_stop ?w ''out1'') = None
     \<and> cmds (snd (on_stop ?w ''out1''))
       = [Answer ''in1'', Playback ''in1'' ''silence_stream://0'', Breakapp ''out1'',
          Playback ''out1'' ''/sounds/ivr/8000/ivr-founder_of_freesource.wav'',
          SchedHangup ''out1'' (1 / 2)]"
    by (simp add: s)
  with h1 flag cbs show ?thesis by blast
qed

subsection \<open>Counting the plays of the reference clip\<close>




subsection \<open>The end of a recording\<close>

lemma on_recstop_registry: "call2recs (app (snd (on_recstop w sid))) = call2recs (app w)"
  by (simp add: on_recstop_def get_peer_def Let_def split: option.split)

lemma on_recstop_marks_recorded: "recorded (svars (snd (on_recstop w sid)) sid) = Some True"
  by (simp add: on_recstop_def get_peer_def Let_def split: option.split)

lemma on_recstop_no_entry:
  assumes "call2recs (app w) (call_of w sid) = None"
  shows "callbacks (cmds (snd (on_recstop w sid))) = callbacks (cmds w)"
    and "peer_of w sid = None \<Longrightarrow> on_recstop w sid = (Some NotBridged, set_recorded sid True w)"
    and "peer_of w sid = Some p \<Longrightarrow> p \<noteq> sid \<Longrightarrow> recorded (svars w p) = Some False
           \<Longrightarrow> on_recstop w sid = (None, set_recorded sid True w)"
    and "peer_of w sid = Some p \<Longrightarrow> p = sid \<or> recorded (svars w p) \<noteq> Some False
           \<Longrightarrow> on_recstop w sid
                 = (Some KeyError, emit (SchedHangup sid (1 / 2)) (set_recorded sid True w))"
  using assms
  by (auto simp: on_recstop_def get_peer_def Let_def split: option.split)

text \<open>
  Claim C6, as the code has it. When RECORD_STOP arrives for a leg whose call has no
  entry in the registry of recording paths, the completion callback is not invoked and
  the registry is left as it is. The reaction marks the leg as recorded. Unless the peer
  leg is still recording (its recorded flag is false), the reaction then schedules the
  hangup of the leg and fails with KeyError on the lookup of the call in the registry.
  It completes without an error only when the peer is still recording, and it fails with
  NotBridged when the leg has no peer.
\<close>

theorem recstop_without_paths:
  assumes "call2recs (app w) (call_of w sid) = None"
  shows "callbacks (cmds (snd (on_recstop w sid))) = callbacks (cmds w)
     \<and> call2recs (app (snd (on_recstop w sid))) = call2recs (app w)
     \<and> recorded (svars (snd (on_recstop w sid)) sid) = Some True
     \<and> (\<forall>p. peer_of w sid = Some p \<and> (p = sid \<or> recorded (svars w p) \<noteq> Some False)
           \<longrightarrow> on_recstop w sid
                 = (Some KeyError, emit (SchedHangup sid (1 / 2)) (set_recorded sid True w)))
     \<and> (\<forall>p. peer_of w sid = Some p \<and> p \<noteq> sid \<and> recorded (svars w p) = Some False
           \<longrightarrow> on_recstop w sid = (None, set_recorded sid True w))
     \<and> (peer_of w sid = None \<longrightarrow> on_recstop w sid = (Some NotBridged, set_recorded sid True w))"
  using on_recstop_no_entry [OF assms] on_recstop_registry [of w sid]
    on_recstop_marks_recorded [of w sid]
  by blast

theorem recstop_without_paths_witness:
  "call2recs (app (run (demo_world 2 (PyFunction [''recinfo''])) signal_flow))
      (call_of (run (demo_world 2 (PyFunction [''recinfo''])) signal_flow) ''in1'') = None
   \<and> callbacks (cmds (snd (on_recstop (run (demo_world 2 (PyFunction [''recinfo''])) signal_flow) ''in1'')))
       = []
   \<and> fst (on_recstop (run (demo_world 2 (PyFunction [''recinfo''])) signal_flow) ''in1'')
       = Some KeyError"
proof -
  let ?w = "run (demo_world 2 (PyFunction [''recinfo''])) signal_flow"
  note s = signal_flow_state [of "PyFunction [''recinfo'']"]
  from run_static [of "demo_world 2 (PyFunction [''recinfo''])" signal_flow]
  have st: "peer_of ?w = demo_peer" by (simp add: same_static_def demo_world_def)
  have h: "call2recs (app ?w) (call_of ?w ''in1'') = None" by (simp add: s)
  have p: "peer_of ?w ''in1'' = Some ''out1''" by (simp add: st demo_peer_def)
  have r: "recorded (svars ?w ''out1'') \<noteq> Some False"
    by (simp add: signal_flow_def handler_defs topo_defs seq_def demo_defs Let_def)
  note t = recstop_without_paths [OF h]
  from t have 1: "callbacks (cmds (snd (on_recstop ?w ''in1''))) = []"
    by (simp add: s)
  from t p r have "on_recstop ?w ''in1''
       = (Some KeyError, emit (SchedHangup ''in1'' (1 / 2)) (set_recorded ''in1'' True ?w))"
    by blast
  then have 2: "fst (on_recstop ?w ''in1'') = Some KeyError" by simp
  from h 1 2 show ?thesis by blast
qed

text \<open>The claim as stated fails: for the call that was not marked for recording,
  RECORD_STOP on the inbound leg does not complete as a no-op; it schedules a hangup and
  raises KeyError.\<close>

theorem recstop_without_paths_counterexample:
  "call2recs (app (run (demo_world 2 (PyFunction [''recinfo''])) signal_flow))
      (call_of (run (demo_world 2 (PyFunction [''recinfo''])) signal_flow) ''in1'') = None
   \<and> fst (on_recstop (run (demo_world 2 (PyFunction [''recinfo''])) signal_flow) ''in1'')
       = Some KeyError
   \<and> cmds (snd (on_recstop (run (demo_world 2 (PyFunction [''recinfo''])) signal_flow) ''in1''))
       = cmds (run (demo_world 2 (PyFunction [''recinfo''])) signal_flow)
           @ [SchedHangup ''in1'' (1 / 2)]"
  by (simp add: signal_flow_def handler_defs topo_defs seq_def demo_defs Let_def)

subsection \<open>Completion\<close>

lemma recording_flow_state:
  "recorded (svars (run (demo_world 1 cb) recording_flow) ''in1'') = Some False"
  "recorded (svars (run (demo_world 1 cb) recording_flow) ''out1'') = Some False"
  "call2recs (app (run (demo_world 1 cb) recording_flow)) ''c1''
     = Some [''callee'' \<mapsto> ''/recs/callee_in1.wav'', ''caller'' \<mapsto> ''/recs/caller_out1.wav'']"
  "record_var (cvars (run (demo_world 1 cb) recording_flow) ''c1'') = Some True"
  "cmds (run (demo_world 1 cb) recording_flow)
     = [Answer ''in1'', StartRecord ''in1'' ''/recs/callee_in1.wav'' False,
        StartRecord ''out1'' ''/recs/caller_out1.wav'' False,
        Playback ''in1'' ''silence_stream://0'']"
  by (simp_all add: recording_flow_def handler_defs topo_defs seq_def demo_defs Let_def)

lemma on_recstop_peer_recording:
  assumes "peer_of w a = Some b" "a \<noteq> b" "recorded (svars w b) = Some False"
  shows "on_recstop w a = (None, set_recorded a True w)"
  using assms by (simp add: on_recstop_def get_peer_def Let_def)

lemma on_recstop_peer_done:
  assumes "peer_of w a = Some b" "a \<noteq> b" "recorded (svars w b) \<noteq> Some False"
    and "call2recs (app w) (call_of w a) = Some recs"
    and "recs ''caller'' = Some cr" "recs ''callee'' = Some ce"
    and "truthy (callback (app w))"
  shows "on_recstop w a
     = (None, emit (Callback a (RecInfo (host (app w)) cr ce))
                (emit (SchedHangup a (1 / 2)) (set_recorded a True w)))"
  using assms by (auto simp: on_recstop_def get_peer_def Let_def split: option.split)

lemma recstop_pair:
  assumes "peer_of w a = Some b" "peer_of w b = Some a" "a \<noteq> b"
    and "call_of w b = call_of w a"
    and "recorded (svars w a) = Some False" "recorded (svars w b) = Some False"
    and "call2recs (app w) (call_of w a) = Some recs"
    and "recs ''caller'' = Some cr" "recs ''callee'' = Some ce"
    and "truthy (callback (app w))"
  shows "react w (RecordStop a) = (None, set_recorded a True w)"
    and "react (set_recorded a True w) (RecordStop b)
     = (None, emit (Callback b (RecInfo (host (app w)) cr ce))
                (emit (SchedHangup b (1 / 2)) (set_recorded b True (set_recorded a True w))))"
proof -
  show "react w (RecordStop a) = (None, set_recorded a True w)"
    using on_recstop_peer_recording [OF assms(1,3,6)] by simp
  let ?w = "set_recorded a True w"
  have "on_recstop ?w b
     = (None, emit (Callback b (RecInfo (host (app ?w)) cr ce))
                (emit (SchedHangup b (1 / 2)) (set_recorded b True ?w)))"
    using assms by (intro on_recstop_peer_done [where recs = recs]) auto
  then show "react ?w (RecordStop b)
     = (None, emit (Callback b (RecInfo (host (app w)) cr ce))
                (emit (SchedHangup b (1 / 2)) (set_recorded b True ?w)))"
    by simp
qed

lemma recording_flow_static:
  "peer_of (run (demo_world 1 cb) recording_flow) = demo_peer"
  "call_of (run (demo_world 1 cb) recording_flow) = demo_call"
  "host (app (run (demo_world 1 cb) recording_flow)) = ''fs1''"
  "callback (app (run (demo_world 1 cb) recording_flow)) = cb"
  using run_static [of "demo_world 1 cb" recording_flow]
  by (simp_all add: same_static_def demo_world_def demo_app_def)

lemma recording_flow_pair:
  "react (run (demo_world 1 (PyFunction [''recinfo''])) recording_flow) (RecordStop ''in1'')
     = (None, set_recorded ''in1'' True (run (demo_world 1 (PyFunction [''recinfo''])) recording_flow))"
  "react (set_recorded ''in1'' True (run (demo_world 1 (PyFunction [''recinfo''])) recording_flow))
       (RecordStop ''out1'')
     = (None, emit (Callback ''out1''
                     (RecInfo ''fs1'' ''/recs/caller_out1.wav'' ''/recs/callee_in1.wav''))
                (emit (SchedHangup ''out1'' (1 / 2))
                   (set_recorded ''out1'' True
                      (set_recorded ''in1'' True
                         (run (demo_world 1 (PyFunction [''recinfo''])) recording_flow)))))"
proof -
  let ?cb = "PyFunction [''recinfo'']"
  let ?w = "run (demo_world 1 ?cb) recording_flow"
  note s = recording_flow_state [of ?cb] and st = recording_flow_static [of ?cb]
  have h: "peer_of ?w ''in1'' = Some ''out1''" "peer_of ?w ''out1'' = Some ''in1''"
    "''in1'' \<noteq> ''out1''" "call_of ?w ''out1'' = call_of ?w ''in1''"
    "call2recs (app ?w) (call_of ?w ''in1'')
       = Some [''callee'' \<mapsto> ''/recs/callee_in1.wav'', ''caller'' \<mapsto> ''/recs/caller_out1.wav'']"
    "truthy (callback (app ?w))"
    by (simp_all add: st s demo_peer_def demo_call_def)
  have k: "[''callee'' \<mapsto> ''/recs/callee_in1.wav'', ''caller'' \<mapsto> ''/recs/caller_out1.wav''] ''caller''
             = Some ''/recs/caller_out1.wav''"
    "[''callee'' \<mapsto> ''/recs/callee_in1.wav'', ''caller'' \<mapsto> ''/recs/caller_out1.wav''] ''callee''
             = Some ''/recs/callee_in1.wav''"
    by simp_all
  note p = recstop_pair [OF h(1) h(2) h(3) h(4) s(1) s(2) h(5) k(1) k(2) h(6)]
  show "react ?w (RecordStop ''in1'') = (None, set_recorded ''in1'' True ?w)" by (rule p(1))
  from p(2) show "react (set_recorded ''in1'' True ?w) (RecordStop ''out1'')
     = (None, emit (Callback ''out1''
                     (RecInfo ''fs1'' ''/recs/caller_out1.wav'' ''/recs/callee_in1.wav''))
                (emit (SchedHangup ''out1'' (1 / 2))
                   (set_recorded ''out1'' True (set_recorded ''in1'' True ?w))))"
    by (simp only: st)
qed

text \<open>
  Claim C1. Take a call whose two legs are bridged and have both started recording: the
  RECORD_START reaction has marked each leg as not yet recorded, and the caller and the
  callee path are registered for the call. With a callback configured, the two
  RECORD_STOP events, processed one after the other in either order, complete without
  error and invoke the callback exactly once: the first reaction sends nothing, the
  second schedules the hangup of its leg and invokes the callback with the host, the
  caller path and the callee path. The invocation is the same in both orders; only the
  leg whose reaction makes it differs.
\<close>

theorem recstop_either_order_single_callback:
  assumes "peer_of w a = Some b" and "peer_of w b = Some a" and "a \<noteq> b"
    and "call_of w b = call_of w a"
    and "recorded (svars w a) = Some False" and "recorded (svars w b) = Some False"
    and "call2recs (app w) (call_of w a) = Some recs"
    and "recs ''caller'' = Some cr" and "recs ''callee'' = Some ce"
    and "truthy (callback (app w))"
  shows "fst (react w (RecordStop a)) = None
     \<and> fst (react (snd (react w (RecordStop a))) (RecordStop b)) = None
     \<and> cmds (run w [RecordStop a, RecordStop b])
         = cmds w @ [SchedHangup b (1 / 2), Callback b (RecInfo (host (app w)) cr ce)]
     \<and> callbacks (cmds (run w [RecordStop a, RecordStop b]))
         = callbacks (cmds w) @ [(b, RecInfo (host (app w)) cr ce)]
     \<and> fst (react w (RecordStop b)) = None
     \<and> fst (react (snd (react w (RecordStop b))) (RecordStop a)) = None
     \<and> cmds (run w [RecordStop b, RecordStop a])
         = cmds w @ [SchedHangup a (1 / 2), Callback a (RecInfo (host (app w)) cr ce)]
     \<and> callbacks (cmds (run w [RecordStop b, RecordStop a]))
         = callbacks (cmds w) @ [(a, RecInfo (host (app w)) cr ce)]"
proof -
  note ab = recstop_pair [OF assms]
  have sym: "b \<noteq> a" "call_of w a = call_of w b" "call2recs (app w) (call_of w b) = Some recs"
    using assms by simp_all
  note ba = recstop_pair [OF assms(2) assms(1) sym(1) sym(2) assms(6) assms(5) sym(3)
      assms(8) assms(9) assms(10)]
  note ba1 = ba(1) and ba2 = ba(2)
  have 1: "fst (react w (RecordStop a)) = None" by (simp only: ab(1) fst_conv)
  have 2: "fst (react (snd (react w (RecordStop a))) (RecordStop b)) = None"
    by (simp only: ab snd_conv fst_conv)
  have r1: "run w [RecordStop a, RecordStop b]
     = emit (Callback b (RecInfo (host (app w)) cr ce))
                (emit (SchedHangup b (1 / 2)) (set_recorded b True (set_recorded a True w)))"
    by (simp only: run.simps ab snd_conv)
  have 3: "cmds (run w [RecordStop a, RecordStop b])
         = cmds w @ [SchedHangup b (1 / 2), Callback b (RecInfo (host (app w)) cr ce)]"
    unfolding r1 by simp
  have 4: "callbacks (cmds (run w [RecordStop a, RecordStop b]))
         = callbacks (cmds w) @ [(b, RecInfo (host (app w)) cr ce)]"
    unfolding r1 by simp
  have 5: "fst (react w (RecordStop b)) = None" by (simp only: ba1 fst_conv)
  have 6: "fst (react (snd (react w (RecordStop b))) (RecordStop a)) = None"
    by (simp only: ba1 ba2 snd_conv fst_conv)
  have r2: "run w [RecordStop b, RecordStop a]
     = emit (Callback a (RecInfo (host (app w)) cr ce))
                (emit (SchedHangup a (1 / 2)) (set_recorded a True (set_recorded b True w)))"
    by (simp only: run.simps ba1 ba2 snd_conv)
  have 7: "cmds (run w [RecordStop b, RecordStop a])
         = cmds w @ [SchedHangup a (1 / 2), Callback a (RecInfo (host (app w)) cr ce)]"
    unfolding r2 by simp
  have 8: "callbacks (cmds (run w [RecordStop b, RecordStop a]))
         = callbacks (cmds w) @ [(a, RecInfo (host (app w)) cr ce)]"
    unfolding r2 by simp
  from 1 2 3 4 5 6 7 8 show ?thesis by blast
qed

theorem recstop_either_order_single_callback_witness:
  "peer_of (run (demo_world 1 (PyFunction [''recinfo''])) recording_flow) ''in1'' = Some ''out1''
   \<and> peer_of (run (demo_world 1 (PyFunction [''recinfo''])) recording_flow) ''out1'' = Some ''in1''
   \<and> recorded (svars (run (demo_world 1 (PyFunction [''recinfo''])) recording_flow) ''in1'') = Some False
   \<and> recorded (svars (run (demo_world 1 (PyFunction [''recinfo''])) recording_flow) ''out1'') = Some False
   \<and> truthy (callback (app (run (demo_world 1 (PyFunction [''recinfo''])) recording_flow)))
   \<and> callbacks (cmds (run (run (demo_world 1 (PyFunction [''recinfo''])) recording_flow)
                        [RecordStop ''in1'', RecordStop ''out1'']))
       = [(''out1'', RecInfo ''fs1'' ''/recs/caller_out1.wav'' ''/recs/callee_in1.wav'')]
   \<and> callbacks (cmds (run (run (demo_world 1 (PyFunction [''recinfo''])) recording_flow)
                        [RecordStop ''out1'', RecordStop ''in1'']))
       = [(''in1'', RecInfo ''fs1'' ''/recs/caller_out1.wav'' ''/recs/callee_in1.wav'')]"
proof -
  let ?cb = "PyFunction [''recinfo'']"
  let ?w = "run (demo_world 1 ?cb) recording_flow"
  note s = recording_flow_state [of ?cb] and st = recording_flow_static [of ?cb]
  have h: "peer_of ?w ''in1'' = Some ''out1''" "peer_of ?w ''out1'' = Some ''in1''"
    "''in1'' \<noteq> ''out1''" "call_of ?w ''out1'' = call_of ?w ''in1''"
    "call2recs (app ?w) (call_of ?w ''in1'')
       = Some [''callee'' \<mapsto> ''/recs/callee_in1.wav'', ''caller'' \<mapsto> ''/recs/caller_out1.wav'']"
    "truthy (callback (app ?w))"
    by (simp_all add: st s demo_peer_def demo_call_def)
  have k: "[''callee'' \<mapsto> ''/recs/callee_in1.wav'', ''caller'' \<mapsto> ''/recs/caller_out1.wav''] ''caller''
             = Some ''/recs/caller_out1.wav''"
    "[''callee'' \<mapsto> ''/recs/callee_in1.wav'', ''caller'' \<mapsto> ''/recs/caller_out1.wav''] ''callee''
             = Some ''/recs/callee_in1.wav''"
    by simp_all
  have cb0: "callbacks (cmds ?w) = []" by (simp add: s)
  note t = recstop_either_order_single_callback
             [OF h(1) h(2) h(3) h(4) s(1) s(2) h(5) k(1) k(2) h(6)]
  from t have "callbacks (cmds (run ?w [RecordStop ''in1'', RecordStop ''out1'']))
         = callbacks (cmds ?w) @ [(''out1'', RecInfo (host (app ?w)) ''/recs/caller_out1.wav''
                                     ''/recs/callee_in1.wav'')]"
    by blast
  then have 1: "callbacks (cmds (run ?w [RecordStop ''in1'', RecordStop ''out1'']))
       = [(''out1'', RecInfo ''fs1'' ''/recs/caller_out1.wav'' ''/recs/callee_in1.wav'')]"
    by (simp only: cb0 st append_Nil)
  from t have "callbacks (cmds (run ?w [RecordStop ''out1'', RecordStop ''in1'']))
         = callbacks (cmds ?w) @ [(''in1'', RecInfo (host (app ?w)) ''/recs/caller_out1.wav''
                                     ''/recs/callee_in1.wav'')]"
    by blast
  then have 2: "callbacks (cmds (run ?w [RecordStop ''out1'', RecordStop ''in1'']))
       = [(''in1'', RecInfo ''fs1'' ''/recs/caller_out1.wav'' ''/recs/callee_in1.wav'')]"
    by (simp only: cb0 st append_Nil)
  from h(1) h(2) s(1) s(2) h(6) 1 2 show ?thesis by blast
qed

subsection \<open>The registry after completion\<close>

lemma on_answer_registry:
  assumes "call2recs (app w) c \<noteq> None"
  shows "call2recs (app (snd (on_answer w s))) c \<noteq> None"
proof (cases "direction_of w s")
  case Inbound
  show ?thesis
  proof (cases "rec_rate (app w) = 0")
    case True
    with Inbound assms show ?thesis
      by (simp add: on_answer_def topo_defs seq_def Let_def)
  next
    case False
    with Inbound assms show ?thesis
      by (cases "(call_count (app w) + 1) mod rec_rate (app w) = 0")
         (simp_all add: on_answer_def topo_defs seq_def Let_def)
  qed
next
  case Outbound
  then have out: "is_outbound w s" by (simp add: is_outbound_def)
  show ?thesis
  proof (cases "record_var (cvars w (call_of w s)) = Some True")
    case True
    with assms on_answer_outbound [OF out] show ?thesis by simp
  next
    case False
    with on_answer_outbound [OF out] have "on_answer w s = trigger_playback w s" by simp
    with trigger_playback_quiet [of w s] assms show ?thesis by (simp add: quiet_def)
  qed
qed

lemma react_registry:
  assumes "call2recs (app w) c \<noteq> None"
  shows "call2recs (app (snd (react w ev))) c \<noteq> None"
proof (cases ev)
  case (ChannelCreate s)
  with on_create_quiet [of w s] assms show ?thesis by (simp add: quiet_def)
next
  case (ChannelPark s)
  with on_park_quiet [of w s] assms show ?thesis by (simp add: quiet_def)
next
  case (ChannelAnswer s)
  with on_answer_registry [OF assms] show ?thesis by simp
next
  case (PlaybackStart s fp)
  with on_play_quiet [of w s fp] assms show ?thesis by (simp add: quiet_def)
next
  case (PlaybackStop s)
  with on_stop_quiet [of w s] assms show ?thesis by (simp add: quiet_def)
next
  case (RecordStart s)
  with on_rec_quiet [of w s] assms show ?thesis by (simp add: quiet_def)
next
  case (RecordStop s)
  with on_recstop_registry [of w s] assms show ?thesis by simp
next
  case (SetDuration v)
  show ?thesis
  proof (cases "setduration (app w) v")
    case (Inl e)
    with SetDuration assms show ?thesis by simp
  next
    case (Inr a)
    from setduration_static [OF Inr] have "call2recs a = call2recs (app w)" by simp
    with SetDuration Inr assms show ?thesis by simp
  qed
next
  case (SetRate v)
  with assms show ?thesis by (simp add: setrate_def)
qed

lemma on_recstop_callback_needs_entry:
  assumes "callbacks (cmds (snd (on_recstop w sid))) \<noteq> callbacks (cmds w)"
  shows "call2recs (app w) (call_of w sid) \<noteq> None"
  using assms on_recstop_no_entry(1) [of w sid] by blast

text \<open>
  Claim C7, as the code has it. The RECORD_STOP reaction never changes the registry of
  recording paths: after the reaction in which the completion callback fires for a call,
  the entry of that call is still there, unchanged. No other reaction removes an entry
  either, so a completed call keeps its entry for as long as the app lives.
\<close>

theorem registry_entry_kept:
  "call2recs (app (snd (on_recstop w sid))) = call2recs (app w)
   \<and> (callbacks (cmds (snd (on_recstop w sid))) \<noteq> callbacks (cmds w)
        \<longrightarrow> call2recs (app (snd (on_recstop w sid))) (call_of w sid) \<noteq> None
            \<and> call2recs (app (snd (on_recstop w sid))) (call_of w sid)
                = call2recs (app w) (call_of w sid))
   \<and> (\<forall>ev c. call2recs (app w) c \<noteq> None \<longrightarrow> call2recs (app (snd (react w ev))) c \<noteq> None)"
  using on_recstop_registry [of w sid] on_recstop_callback_needs_entry [of w sid]
    react_registry [of w]
  by auto

theorem registry_entry_kept_witness:
  "callbacks (cmds (snd (on_recstop
       (set_recorded ''in1'' True (run (demo_world 1 (PyFunction [''recinfo''])) recording_flow))
       ''out1'')))
     \<noteq> callbacks (cmds (set_recorded ''in1'' True
                          (run (demo_world 1 (PyFunction [''recinfo''])) recording_flow)))
   \<and> call2recs (app (snd (on_recstop
       (set_recorded ''in1'' True (run (demo_world 1 (PyFunction [''recinfo''])) recording_flow))
       ''out1''))) ''c1''
     = Some [''callee'' \<mapsto> ''/recs/callee_in1.wav'', ''caller'' \<mapsto> ''/recs/caller_out1.wav'']"
proof -
  let ?w = "run (demo_world 1 (PyFunction [''recinfo''])) recording_flow"
  let ?w1 = "set_recorded ''in1'' True ?w"
  note s = recording_flow_state [of "PyFunction [''recinfo'']"]
  from recording_flow_pair(2) have r: "on_recstop ?w1 ''out1''
     = (None, emit (Callback ''out1''
                     (RecInfo ''fs1'' ''/recs/caller_out1.wav'' ''/recs/callee_in1.wav''))
                (emit (SchedHangup ''out1'' (1 / 2)) (set_recorded ''out1'' True ?w1)))"
    by simp
  have 1: "callbacks (cmds (snd (on_recstop ?w1 ''out1''))) \<noteq> callbacks (cmds ?w1)"
    unfolding r by simp
  have c: "call_of ?w ''out1'' = ''c1''"
    by (simp add: recording_flow_static demo_call_def)
  from registry_entry_kept [of ?w1 "''out1''"] 1
  have "call2recs (app (snd (on_recstop ?w1 ''out1''))) (call_of ?w1 ''out1'')
          = call2recs (app ?w1) (call_of ?w1 ''out1'')" by blast
  then have 2: "call2recs (app (snd (on_recstop ?w1 ''out1''))) ''c1''
     = Some [''callee'' \<mapsto> ''/recs/callee_in1.wav'', ''caller'' \<mapsto> ''/recs/caller_out1.wav'']"
    by (simp add: s c)
  from 1 2 show ?thesis by blast
qed

text \<open>The claim as stated fails: after both legs of the recorded call have stopped
  recording and the callback has fired, the registry still maps the call to its two
  paths.\<close>

theorem registry_entry_kept_counterexample:
  "callbacks (cmds (run (demo_world 1 (PyFunction [''recinfo'']))
                      (recording_flow @ [RecordStop ''in1'', RecordStop ''out1''])))
     = [(''out1'', RecInfo ''fs1'' ''/recs/caller_out1.wav'' ''/recs/callee_in1.wav'')]
   \<and> call2recs (app (run (demo_world 1 (PyFunction [''recinfo'']))
                      (recording_flow @ [RecordStop ''in1'', RecordStop ''out1'']))) ''c1''
     = Some [''callee'' \<mapsto> ''/recs/callee_in1.wav'', ''caller'' \<mapsto> ''/recs/caller_out1.wav'']"
  by (simp add: recording_flow_def handler_defs topo_defs seq_def demo_defs Let_def)

end
